theory Spec2Isabelle
  imports Complex_Main
begin

section \<open>Values of the host language\<close>

text \<open>
  A JavaScript number: NaN, one of the two infinities, or a finite double, written
  \<open>Fin r\<close> with the real \<open>r\<close> it denotes.  Negative zero is not told apart from zero.
\<close>

datatype number = NaN | Fin real | PosInf | NegInf

datatype error = TypeError | ReferenceError

text \<open>The global \<open>isNaN\<close>, on a number.\<close>

fun isNaN :: "number \<Rightarrow> bool" where
  "isNaN NaN = True"
| "isNaN _ = False"

text \<open>
  \<open>index + 1\<close> and \<open>index - 1\<close> are \<open>num_add index 1\<close> and \<open>num_add index (- 1)\<close>: on
  the whole numbers that index an array the sum is exact.
\<close>

fun num_add :: "number \<Rightarrow> real \<Rightarrow> number" where
  "num_add NaN c = NaN"
| "num_add (Fin r) c = Fin (r + c)"
| "num_add PosInf c = PosInf"
| "num_add NegInf c = NegInf"

text \<open>\<open>x >= n\<close> for an array length \<open>n\<close>: every comparison with NaN is false.\<close>

fun num_ge :: "number \<Rightarrow> nat \<Rightarrow> bool" where
  "num_ge NaN n = False"
| "num_ge (Fin r) n = (real n \<le> r)"
| "num_ge PosInf n = True"
| "num_ge NegInf n = False"

text \<open>
  \<open>xs[x]\<close> for a number \<open>x\<close>: an element when \<open>x\<close> is a whole number inside the
  array, and \<open>undefined\<close> (here \<open>None\<close>) for every other key.
\<close>

fun array_get :: "'a list \<Rightarrow> number \<Rightarrow> 'a option" where
  "array_get xs (Fin r) =
     (if 0 \<le> r \<and> r = of_int \<lfloor>r\<rfloor> \<and> nat \<lfloor>r\<rfloor> < length xs
      then Some (xs ! nat \<lfloor>r\<rfloor>) else None)"
| "array_get xs _ = None"

subsection \<open>Double arithmetic\<close>

text \<open>
  Rounding of a real to the nearest double (IEEE 754 binary64, ties to even).  The
  binade of \<open>x\<close> is the largest \<open>e \<le> 1023\<close> with \<open>2 ^ e \<le> |x|\<close>, and \<open>- 1022\<close> below the
  normal range; a double of that binade is a whole multiple of \<open>2 ^ (e - 52)\<close>.  A
  result that reaches \<open>2 ^ 1024\<close> overflows to an infinity.
\<close>

fun binade_from :: "nat \<Rightarrow> int \<Rightarrow> real \<Rightarrow> int" where
  "binade_from 0 e a = e"
| "binade_from (Suc n) e a = (if 2 powi e \<le> a then e else binade_from n (e - 1) a)"

definition binade :: "real \<Rightarrow> int" where
  "binade x = (if 2 powi 1024 \<le> \<bar>x\<bar> then 1024 else binade_from 2045 1023 \<bar>x\<bar>)"

definition round_half_even :: "real \<Rightarrow> int" where
  "round_half_even x =
     (let f = \<lfloor>x\<rfloor>; d = x - of_int f
      in if d < 1 / 2 then f else if 1 / 2 < d then f + 1 else if even f then f else f + 1)"

definition to_double :: "real \<Rightarrow> number" where
  "to_double x =
     (if x = 0 then Fin 0
      else let q = binade x - 52;
               r = of_int (round_half_even (x / 2 powi q)) * 2 powi q
           in if 2 powi 1024 \<le> \<bar>r\<bar> then (if 0 < r then PosInf else NegInf) else Fin r)"

text \<open>
  The operators \<open>+\<close>, \<open>*\<close>, \<open>/\<close>, unary \<open>-\<close> and \<open>>=\<close> on numbers.  A finite result is
  the exact result rounded; \<open>x - y\<close> is \<open>x + (- y)\<close>.  A quotient by zero takes the
  zero as positive.
\<close>

fun dneg :: "number \<Rightarrow> number" where
  "dneg NaN = NaN"
| "dneg (Fin a) = Fin (- a)"
| "dneg PosInf = NegInf"
| "dneg NegInf = PosInf"

fun dadd :: "number \<Rightarrow> number \<Rightarrow> number" where
  "dadd (Fin a) (Fin b) = to_double (a + b)"
| "dadd NaN y = NaN"
| "dadd x NaN = NaN"
| "dadd PosInf NegInf = NaN"
| "dadd NegInf PosInf = NaN"
| "dadd PosInf y = PosInf"
| "dadd NegInf y = NegInf"
| "dadd x PosInf = PosInf"
| "dadd x NegInf = NegInf"

definition dsub :: "number \<Rightarrow> number \<Rightarrow> number" where
  "dsub x y = dadd x (dneg y)"

text \<open>The sign of a number: \<open>None\<close> for NaN, else \<open>- 1\<close>, 0 or 1.\<close>

fun dsign :: "number \<Rightarrow> int option" where
  "dsign NaN = None"
| "dsign (Fin a) = Some (if a < 0 then - 1 else if a = 0 then 0 else 1)"
| "dsign PosInf = Some 1"
| "dsign NegInf = Some (- 1)"

definition signed_inf :: "int \<Rightarrow> number" where
  "signed_inf sg = (if sg < 0 then NegInf else PosInf)"

fun dmul :: "number \<Rightarrow> number \<Rightarrow> number" where
  "dmul (Fin a) (Fin b) = to_double (a * b)"
| "dmul x y =
     (case (dsign x, dsign y) of
        (Some sx, Some sy) \<Rightarrow> if sx * sy = 0 then NaN else signed_inf (sx * sy)
      | _ \<Rightarrow> NaN)"

fun ddiv :: "number \<Rightarrow> number \<Rightarrow> number" where
  "ddiv (Fin a) (Fin b) =
     (if b = 0 then (if a = 0 then NaN else signed_inf (if a < 0 then - 1 else 1))
      else to_double (a / b))"
| "ddiv NaN y = NaN"
| "ddiv x NaN = NaN"
| "ddiv (Fin a) y = Fin 0"
| "ddiv PosInf (Fin b) = signed_inf (if b < 0 then - 1 else 1)"
| "ddiv NegInf (Fin b) = signed_inf (if b < 0 then 1 else - 1)"
| "ddiv PosInf PosInf = NaN"
| "ddiv PosInf NegInf = NaN"
| "ddiv NegInf PosInf = NaN"
| "ddiv NegInf NegInf = NaN"

fun dge :: "number \<Rightarrow> number \<Rightarrow> bool" where
  "dge (Fin a) (Fin b) = (b \<le> a)"
| "dge NaN y = False"
| "dge x NaN = False"
| "dge PosInf y = True"
| "dge x NegInf = True"
| "dge (Fin a) PosInf = False"
| "dge NegInf y = False"

text \<open>\<open>Math.trunc\<close>: rounding towards zero.\<close>

definition trunc :: "real \<Rightarrow> real" where
  "trunc r = (if 0 \<le> r then of_int \<lfloor>r\<rfloor> else of_int \<lceil>r\<rceil>)"

fun num_trunc :: "number \<Rightarrow> number" where
  "num_trunc (Fin r) = Fin (trunc r)"
| "num_trunc x = x"

subsection \<open>Values written to the page\<close>

text \<open>
  Assigning a number to \<open>style.opacity\<close>: a finite number is stored, anything else is
  not a CSS number and leaves the old value.
\<close>

fun style_opacity :: "number \<Rightarrow> real option \<Rightarrow> real option" where
  "style_opacity (Fin r) old = Some r"
| "style_opacity x old = old"

text \<open>
  Assigning a number to the value of the slider, a range input from 0 to 100 in steps
  of 1: the value is kept inside the range and on a step (the upper one of two equally
  near), and anything that is not a finite number gives the middle of the range.
\<close>

fun range_value :: "number \<Rightarrow> real" where
  "range_value (Fin r) = (if r < 0 then 0 else if 100 < r then 100 else of_int \<lfloor>r + 1 / 2\<rfloor>)"
| "range_value x = 50"

record vector3 =
  vx :: number
  vy :: number
  vz :: number

record quaternion =
  qx :: number
  qy :: number
  qz :: number
  qw :: number

text \<open>A \<open>moment\<close> object, kept as the string it was built from.\<close>

datatype moment = Moment string

section \<open>Document\<close>

text \<open>
  The record \<open>docBillboardData\<close> is \<open>{type: "billboard", doc: this}\<close>.  Its \<open>doc\<close>
  field points back at the document that owns it, so it is kept as the marker \<open>This\<close>.
\<close>

datatype self = This

record billboard_data =
  bd_type :: string
  bd_doc :: self

datatype material = ImageTexture string | Wireframe nat

text \<open>
  A \<open>THREE.Mesh\<close> as this module uses it.  \<open>mesh_id\<close> is the identity of the object
  (THREE numbers every \<open>Object3D\<close> from a global counter); \<open>userData\<close> is \<open>None\<close> for
  the empty object a mesh starts with.  Orientation and world matrices are left out, so
  \<open>lookAt\<close> and \<open>updateMatrixWorld\<close> change nothing that is modelled.
\<close>

record mesh =
  mesh_id :: nat
  mesh_material :: material
  layer :: nat
  position :: vector3
  userData :: "billboard_data option"

record document =
  index :: number
  doc_ID :: number
  imageSourceHD :: string
  imageSourceBD :: string
  metaData :: string
  startDate :: moment
  title :: string
  useBillboard :: bool
  billboardPosition :: vector3
  viewPosition :: vector3
  viewQuaternion :: quaternion
  billboardGeometry :: "mesh option"
  billboardGeometryFrame :: "mesh option"
  docBillboardData :: "billboard_data option"

text \<open>
  \<open>createBillboard\<close>: the two planes, on layer 1, at the billboard position, the image
  plane carrying the document's billboard data.  \<open>k\<close> is the next free object id.
\<close>

definition createBillboard :: "string \<Rightarrow> vector3 \<Rightarrow> nat \<Rightarrow> document \<Rightarrow> document" where
  "createBillboard docImageSourceBD billboardPos k d =
     (let bd = \<lparr>bd_type = ''billboard'', bd_doc = This\<rparr> in
      d\<lparr>billboardGeometry :=
           Some \<lparr>mesh_id = k, mesh_material = ImageTexture docImageSourceBD, layer = 1,
                  position = billboardPos, userData = Some bd\<rparr>,
         billboardGeometryFrame :=
           Some \<lparr>mesh_id = Suc k, mesh_material = Wireframe 0x00ffaa, layer = 1,
                  position = billboardPos, userData = None\<rparr>,
         docBillboardData := Some bd\<rparr>)"

text \<open>
  The constructor \<open>Document\<close>, with the source's parameter order.  The last parameter is
  the next free object id; the result carries the next free id after the call.
\<close>

definition Document ::
  "string \<Rightarrow> number \<Rightarrow> number \<Rightarrow> string \<Rightarrow> string \<Rightarrow> vector3 \<Rightarrow> vector3 \<Rightarrow> quaternion \<Rightarrow>
   moment \<Rightarrow> string \<Rightarrow> nat \<Rightarrow> document \<times> nat" where
  "Document docTitle docIndex docID docImageSourceHD docImageSourceBD billboardPos
      docViewPosition docViewQuaternion docDate meta k =
     (let d = \<lparr>index = docIndex, doc_ID = docID,
                imageSourceHD = docImageSourceHD, imageSourceBD = docImageSourceBD,
                metaData = meta, startDate = docDate, title = docTitle,
                useBillboard = (\<not> isNaN (vx billboardPos) \<and> \<not> isNaN (vy billboardPos)
                                \<and> \<not> isNaN (vz billboardPos)),
                billboardPosition = billboardPos,
                viewPosition = docViewPosition, viewQuaternion = docViewQuaternion,
                billboardGeometry = None, billboardGeometryFrame = None,
                docBillboardData = None\<rparr>
      in if useBillboard d
         then (createBillboard docImageSourceBD billboardPos k d, k + 2)
         else (d, k))"

section \<open>The handler's state\<close>

text \<open>
  The elements of the page the handler writes to.  \<open>docFullImg_src\<close> is the \<open>src\<close>
  attribute of the full image (\<open>None\<close> while it has none), \<open>docFullImg_opacity\<close> its
  \<open>style.opacity\<close>, \<open>docOpaSlider\<close> the value of the slider, \<open>docOpacity\<close> the number
  shown beside it, and \<open>docBrowserIndex\<close> the number shown after the text \<open>index : \<close>.
\<close>

record dom =
  docBrowserWindow_display :: string
  docBrowserTitle :: string
  docBrowserMetaData :: string
  docBrowserPreviewImg_src :: string
  docBrowserIndex :: "number option"
  docFull_display :: string
  docFullImg_src :: "string option"
  docFullImg_opacity :: "real option"
  docFullPanel_display :: string
  docOpaSlider :: real
  docOpacity :: number
  docBrowserToggleBillboard :: string
  docBrowserToggleBillboard_display :: string

text \<open>
  An object of the scene as \<open>onMouseClick\<close> reads it: the \<open>type\<close> and the \<open>doc\<close> of its
  \<open>userData\<close> (\<open>None\<close> for \<open>undefined\<close>).
\<close>

record object3d =
  userData_type :: "string option"
  userData_doc :: "document option"

record camera3D =
  cam_position :: vector3
  cam_quaternion :: quaternion

text \<open>
  The handler, with the collaborators it drives.  \<open>billboardsAreActive\<close> and
  \<open>showBillboardButton\<close> are the constructor's local variables; \<open>temporal\<close> tells whether
  \<open>options.temporal\<close> was given.  Of the collaborators: \<open>camera\<close> is
  \<open>view.camera.camera3D\<close>, \<open>scene\<close> the children of \<open>view.scene\<close> by object id,
  \<open>others\<close> the \<open>userData\<close> of the objects of the page that are not planes of this
  handler's documents, \<open>notified\<close> the arguments of the calls to \<open>view.notifyChange\<close>,
  \<open>travels\<close> the poses passed to \<open>controls.initiateTravel\<close>, \<open>timeChanges\<close> the dates
  passed to \<open>temporal.changeTime\<close>, \<open>initEvents\<close> the number of \<open>docInit\<close> events
  dispatched, \<open>innerWidth\<close> and \<open>innerHeight\<close> the size of the window,
  \<open>global_temporal\<close> and \<open>global_moment\<close> whether the page binds the global names
  \<open>temporal\<close> and \<open>moment\<close>, which the module reads without importing them, and
  \<open>object3DId\<close> THREE's counter of object ids.
\<close>

record handler =
  docBrowserWindowIsActive :: bool
  billboardsAreActive :: bool
  showBillboardButton :: bool
  temporal :: bool
  AllDocuments :: "document list"
  currentDoc :: "document option"
  fadeDuration :: number
  isOrientingDoc :: bool
  isFadingDoc :: bool
  fadeAlpha :: number
  html :: dom
  camera :: camera3D
  scene :: "nat list"
  others :: "nat \<Rightarrow> object3d"
  notified :: "bool list"
  travels :: "(vector3 \<times> quaternion) list"
  timeChanges :: "moment list"
  initEvents :: nat
  innerWidth :: number
  innerHeight :: number
  global_temporal :: bool
  global_moment :: bool
  object3DId :: nat

record options =
  docBrowserWindowStartActive :: "bool option"
  opt_temporal :: bool
  docFadeDuration :: "number option"

text \<open>What the constructor finds on the page.\<close>

record page =
  page_camera :: camera3D
  page_scene :: "nat list"
  page_others :: "nat \<Rightarrow> object3d"
  page_innerWidth :: number
  page_innerHeight :: number
  page_temporal :: bool
  page_moment :: bool
  page_object3DId :: nat

text \<open>
  A call returns the state it leaves, and the exception it threw if it threw one: what
  was written before a throw stays written.
\<close>

type_synonym outcome = "error option \<times> handler"

definition andThen :: "outcome \<Rightarrow> (handler \<Rightarrow> outcome) \<Rightarrow> outcome" where
  "andThen r f = (case r of (None, s) \<Rightarrow> f s | (Some e, s) \<Rightarrow> (Some e, s))"

text \<open>\<open>Array.prototype.forEach\<close> with a callback that may throw.\<close>

fun forEach :: "('a \<Rightarrow> handler \<Rightarrow> outcome) \<Rightarrow> 'a list \<Rightarrow> handler \<Rightarrow> outcome" where
  "forEach f [] s = (None, s)"
| "forEach f (x # xs) s = andThen (f x s) (forEach f xs)"

text \<open>
  \<open>Object3D.add\<close> and \<open>Object3D.remove\<close> of THREE, on the children of the scene: \<open>add\<close>
  takes the object out of its parent first and appends it.
\<close>

definition scene_add :: "nat \<Rightarrow> nat list \<Rightarrow> nat list" where
  "scene_add x cs = remove1 x cs @ [x]"

definition scene_remove :: "nat \<Rightarrow> nat list \<Rightarrow> nat list" where
  "scene_remove x cs = remove1 x cs"

section \<open>DocumentsHandler\<close>

text \<open>
  The constructor: the state before the data file is loaded.  \<open>x || y\<close> takes \<open>y\<close>
  when \<open>x\<close> is missing, false, 0 or NaN.
\<close>

definition DocumentsHandler :: "options \<Rightarrow> page \<Rightarrow> handler" where
  "DocumentsHandler opts pg =
     (let active = (case docBrowserWindowStartActive opts of None \<Rightarrow> False | Some b \<Rightarrow> b)
      in \<lparr>docBrowserWindowIsActive = active,
          billboardsAreActive = False,
          showBillboardButton = False,
          temporal = opt_temporal opts,
          AllDocuments = [],
          currentDoc = None,
          fadeDuration = (case docFadeDuration opts of None \<Rightarrow> Fin 2750
                          | Some d \<Rightarrow> if d = Fin 0 \<or> d = NaN then Fin 2750 else d),
          isOrientingDoc = False,
          isFadingDoc = False,
          fadeAlpha = Fin 0,
          html = \<lparr>docBrowserWindow_display = (if \<not> active then ''none'' else ''block''),
                   docBrowserTitle = ''doc title'',
                   docBrowserMetaData = ''metadata'',
                   docBrowserPreviewImg_src = ''DefaultImage.png'',
                   docBrowserIndex = None,
                   docFull_display = [],
                   docFullImg_src = None,
                   docFullImg_opacity = None,
                   docFullPanel_display = [],
                   docOpaSlider = 75,
                   docOpacity = Fin 50,
                   docBrowserToggleBillboard = ''Billboard'',
                   docBrowserToggleBillboard_display = ''none''\<rparr>,
          camera = page_camera pg,
          scene = page_scene pg,
          others = page_others pg,
          notified = [],
          travels = [],
          timeChanges = [],
          initEvents = 0,
          innerWidth = page_innerWidth pg,
          innerHeight = page_innerHeight pg,
          global_temporal = page_temporal pg,
          global_moment = page_moment pg,
          object3DId = page_object3DId pg\<rparr>)"

definition updateBrowser :: "handler \<Rightarrow> outcome" where
  "updateBrowser s =
     (case currentDoc s of
        None \<Rightarrow> (Some TypeError, s)
      | Some d \<Rightarrow>
          (None, s\<lparr>html := (html s)\<lparr>docBrowserPreviewImg_src := imageSourceBD d,
                                    docBrowserMetaData := metaData d,
                                    docBrowserTitle := title d,
                                    docBrowserIndex := Some (index d)\<rparr>\<rparr>))"

text \<open>
  \<open>scene.add(m)\<close> and \<open>scene.remove(m)\<close> for a field that may be \<open>null\<close>: THREE leaves
  the scene as it is then.  The \<open>updateMatrixWorld\<close> calls that follow throw on \<open>null\<close>.
\<close>

definition add_mesh :: "mesh option \<Rightarrow> nat list \<Rightarrow> nat list" where
  "add_mesh m cs = (case m of None \<Rightarrow> cs | Some g \<Rightarrow> scene_add (mesh_id g) cs)"

definition remove_mesh :: "mesh option \<Rightarrow> nat list \<Rightarrow> nat list" where
  "remove_mesh m cs = (case m of None \<Rightarrow> cs | Some g \<Rightarrow> scene_remove (mesh_id g) cs)"

definition null_mesh :: "document \<Rightarrow> error option" where
  "null_mesh d =
     (if billboardGeometry d = None \<or> billboardGeometryFrame d = None
      then Some TypeError else None)"

definition show_billboard :: "document \<Rightarrow> handler \<Rightarrow> outcome" where
  "show_billboard element s =
     (if \<not> useBillboard element then (None, s)
      else (null_mesh element,
            s\<lparr>scene := add_mesh (billboardGeometryFrame element)
                         (add_mesh (billboardGeometry element) (scene s))\<rparr>))"

definition hide_billboard :: "document \<Rightarrow> handler \<Rightarrow> outcome" where
  "hide_billboard element s =
     (if \<not> useBillboard element then (None, s)
      else (null_mesh element,
            s\<lparr>scene := remove_mesh (billboardGeometryFrame element)
                         (remove_mesh (billboardGeometry element) (scene s))\<rparr>))"

definition notifyChange :: "bool \<Rightarrow> handler \<Rightarrow> outcome" where
  "notifyChange b s = (None, s\<lparr>notified := notified s @ [b]\<rparr>)"

definition showBillboards :: "bool \<Rightarrow> handler \<Rightarrow> outcome" where
  "showBillboards forceShow s =
     (if \<not> forceShow \<and> \<not> billboardsAreActive s then (None, s)
      else andThen
             (forEach show_billboard (AllDocuments s)
                (s\<lparr>html := (html s)\<lparr>docBrowserToggleBillboard := ''Masquer Billboards''\<rparr>\<rparr>))
             (notifyChange True))"

definition hideBillboards :: "bool \<Rightarrow> handler \<Rightarrow> outcome" where
  "hideBillboards forceHide s =
     (if \<not> forceHide \<and> billboardsAreActive s then (None, s)
      else andThen
             (forEach hide_billboard (AllDocuments s)
                (s\<lparr>html := (html s)\<lparr>docBrowserToggleBillboard := ''Afficher Billboards''\<rparr>\<rparr>))
             (notifyChange True))"

definition toggleBillboards :: "handler \<Rightarrow> outcome" where
  "toggleBillboards s =
     (if billboardsAreActive s
      then hideBillboards True (s\<lparr>billboardsAreActive := False\<rparr>)
      else showBillboards True (s\<lparr>billboardsAreActive := True\<rparr>))"

text \<open>
  \<open>focusOnDoc\<close>.  Reading a field of a missing current document throws; so does the name
  \<open>temporal\<close> when \<open>this.temporal\<close> is set and the page binds no such global.
\<close>

definition focusOnDoc :: "handler \<Rightarrow> outcome" where
  "focusOnDoc s =
     (case currentDoc s of
        None \<Rightarrow> (Some TypeError, s)
      | Some d \<Rightarrow>
          (let s1 = s\<lparr>html := (html s)\<lparr>docFullImg_src := Some (imageSourceHD d),
                                          docBrowserPreviewImg_src := imageSourceBD d,
                                          docFullImg_opacity := Some 0,
                                          docOpaSlider := 0,
                                          docOpacity := Fin 0,
                                          docFull_display := ''block'',
                                          docFullPanel_display := ''none''\<rparr>\<rparr>;
               s2 = (if \<not> isNaN (vx (viewPosition d)) \<and> \<not> isNaN (qx (viewQuaternion d))
                     then s1\<lparr>travels := travels s1 @ [(viewPosition d, viewQuaternion d)]\<rparr>
                     else s1)
           in if temporal s2 \<and> \<not> global_temporal s2 then (Some ReferenceError, s2)
              else
                andThen
                  (hideBillboards True
                     (if temporal s2 then s2\<lparr>timeChanges := timeChanges s2 @ [startDate d]\<rparr>
                      else s2))
                  (\<lambda>s3. notifyChange False (s3\<lparr>isOrientingDoc := True, isFadingDoc := False\<rparr>))))"

text \<open>\<open>closeDocFull\<close>.  Assigning \<open>null\<close> to \<open>src\<close> stores the string \<open>null\<close>.\<close>

definition closeDocFull :: "handler \<Rightarrow> outcome" where
  "closeDocFull s =
     showBillboards False
       (s\<lparr>html := (html s)\<lparr>docFull_display := ''none'', docFullImg_src := Some ''null''\<rparr>\<rparr>)"

definition toggleDocBrowserWindow :: "handler \<Rightarrow> handler" where
  "toggleDocBrowserWindow s =
     (let s1 = s\<lparr>html := (html s)\<lparr>docBrowserWindow_display :=
                    (if docBrowserWindowIsActive s then ''block'' else ''none'')\<rparr>\<rparr>
      in s1\<lparr>docBrowserWindowIsActive := (if docBrowserWindowIsActive s1 then True else False)\<rparr>)"

text \<open>\<open>docOpaUpdate\<close>, the handler of the opacity slider, on the slider's value as a number.\<close>

definition docOpaUpdate :: "number \<Rightarrow> handler \<Rightarrow> handler" where
  "docOpaUpdate opa s =
     s\<lparr>html := (html s)\<lparr>docOpacity := opa,
                           docFullImg_opacity :=
                             style_opacity (ddiv opa (Fin 100)) (docFullImg_opacity (html s))\<rparr>\<rparr>"

text \<open>
  \<open>update\<close>, called on every frame.  \<open>controls_state\<close> is the value of
  \<open>this.controls.state\<close> that the call reads.  The sum and the quotient of the fade are
  those of doubles.  The constants 0, 1 and 100 are written to the page as they are;
  the running values go through \<open>style_opacity\<close> and \<open>range_value\<close>.  The last loop
  turns the billboards towards the camera: it changes nothing that is modelled, and
  throws on a \<open>null\<close> plane.
\<close>

definition lookAt_billboard :: "document \<Rightarrow> handler \<Rightarrow> outcome" where
  "lookAt_billboard element s =
     (if \<not> useBillboard element then (None, s) else (null_mesh element, s))"

definition update :: "number \<Rightarrow> bool \<Rightarrow> int \<Rightarrow> handler \<Rightarrow> outcome" where
  "update dt0 updateLoopRestarted controls_state s =
     (let dt = (if updateLoopRestarted then Fin 16 else dt0);
          s1 = (if isOrientingDoc s \<and> controls_state = - 1
                then s\<lparr>isOrientingDoc := False, isFadingDoc := True, fadeAlpha := Fin 0,
                       html := (html s)\<lparr>docOpaSlider := 0, docOpacity := Fin 0,
                                         docFullImg_opacity := Some 0,
                                         docFullPanel_display := ''block''\<rparr>\<rparr>
                else s);
          s2 = (if isFadingDoc s1
                then (let a = dadd (fadeAlpha s1) (ddiv dt (fadeDuration s1));
                          s' = (if dge a (Fin 1)
                                then s1\<lparr>fadeAlpha := a, isFadingDoc := False,
                                        html := (html s1)\<lparr>docFullImg_opacity := Some 1,
                                                           docOpaSlider := 100,
                                                           docOpacity := Fin 100\<rparr>\<rparr>
                                else s1\<lparr>fadeAlpha := a,
                                        html := (html s1)
                                          \<lparr>docFullImg_opacity :=
                                             style_opacity a (docFullImg_opacity (html s1)),
                                           docOpaSlider := range_value (dmul a (Fin 100)),
                                           docOpacity := num_trunc (dmul a (Fin 100))\<rparr>\<rparr>)
                      in s'\<lparr>notified := notified s' @ [False]\<rparr>)
                else s1)
      in forEach lookAt_billboard (AllDocuments s2) s2)"

definition nextDoc :: "handler \<Rightarrow> outcome" where
  "nextDoc s =
     (case currentDoc s of
        None \<Rightarrow> (Some TypeError, s)
      | Some d \<Rightarrow>
          (if num_ge (num_add (index d) 1) (length (AllDocuments s)) then (None, s)
           else updateBrowser
                  (s\<lparr>currentDoc := array_get (AllDocuments s) (num_add (index d) 1)\<rparr>)))"

definition previousDoc :: "handler \<Rightarrow> outcome" where
  "previousDoc s =
     (case currentDoc s of
        None \<Rightarrow> (Some TypeError, s)
      | Some d \<Rightarrow>
          (if index d = Fin 0 then (None, s)
           else updateBrowser
                  (s\<lparr>currentDoc := array_get (AllDocuments s) (num_add (index d) (- 1))\<rparr>)))"

text \<open>
  The object behind an id.  A plane of one of the handler's documents carries the
  \<open>userData\<close> that \<open>createBillboard\<close> gave it, whose \<open>doc\<close> is the document that holds
  the plane; any other id is looked up among the other objects of the page.
\<close>

definition own_meshes :: "document \<Rightarrow> mesh list" where
  "own_meshes d =
     (case billboardGeometry d of None \<Rightarrow> [] | Some p \<Rightarrow> [p])
     @ (case billboardGeometryFrame d of None \<Rightarrow> [] | Some f \<Rightarrow> [f])"

definition object_userData :: "handler \<Rightarrow> nat \<Rightarrow> object3d" where
  "object_userData s i =
     (case find (\<lambda>d. i \<in> mesh_id ` set (own_meshes d)) (AllDocuments s) of
        None \<Rightarrow> others s i
      | Some d \<Rightarrow>
          (case find (\<lambda>m. mesh_id m = i) (own_meshes d) of
             None \<Rightarrow> others s i
           | Some m \<Rightarrow>
               (case userData m of
                  None \<Rightarrow> \<lparr>userData_type = None, userData_doc = None\<rparr>
                | Some bd \<Rightarrow>
                    \<lparr>userData_type = Some (bd_type bd),
                     userData_doc = (case bd_doc bd of This \<Rightarrow> Some d)\<rparr>)))"

text \<open>
  \<open>onMouseClick\<close>.  The position of the click is brought to the range from \<open>-1\<close> to 1
  in both directions and handed to THREE's ray caster with the camera and the children
  of the scene.  The ray caster is the parameter \<open>intersectObjects\<close>: it returns the ids
  of the objects that the ray meets, the nearest first.  The loop stops at the first
  billboard.
\<close>

record mouse_event =
  clientX :: number
  clientY :: number

record vector2 =
  v2x :: number
  v2y :: number

type_synonym raycaster = "vector2 \<Rightarrow> camera3D \<Rightarrow> nat list \<Rightarrow> nat list"

fun onMouseClick_loop :: "nat list \<Rightarrow> handler \<Rightarrow> outcome" where
  "onMouseClick_loop [] s = (None, s)"
| "onMouseClick_loop (i # intersects) s =
     (if userData_type (object_userData s i) = Some ''billboard''
      then focusOnDoc (s\<lparr>currentDoc := userData_doc (object_userData s i)\<rparr>)
      else onMouseClick_loop intersects s)"

definition onMouseClick :: "raycaster \<Rightarrow> mouse_event \<Rightarrow> handler \<Rightarrow> outcome" where
  "onMouseClick intersectObjects event s =
     (let mouse = \<lparr>v2x = dsub (dmul (ddiv (clientX event) (innerWidth s)) (Fin 2)) (Fin 1),
                   v2y = dadd (dmul (dneg (ddiv (clientY event) (innerHeight s))) (Fin 2))
                           (Fin 1)\<rparr>;
          intersects = intersectObjects mouse (camera s) (scene s)
      in onMouseClick_loop intersects s)"

text \<open>
  \<open>initialize\<close>.  A row is the array of its cells.  \<open>field\<close> reads a cell (\<open>undefined\<close>
  past the end), \<open>parseFloat\<close> is the builtin, taken as the parameter \<open>pf\<close> on strings
  (an \<open>undefined\<close> argument is converted to the string \<open>undefined\<close> first), and calling
  \<open>toString\<close> on \<open>undefined\<close> throws.  \<open>new moment(...)\<close> reads the global name
  \<open>moment\<close> before its argument: \<open>bound_moment\<close> tells whether the page binds it.
\<close>

definition field :: "string list \<Rightarrow> nat \<Rightarrow> string option" where
  "field docData k = (if k < length docData then Some (docData ! k) else None)"

definition string_of :: "string option \<Rightarrow> string" where
  "string_of v = (case v of None \<Rightarrow> ''undefined'' | Some str \<Rightarrow> str)"

definition parseFloat :: "(string \<Rightarrow> number) \<Rightarrow> string option \<Rightarrow> number" where
  "parseFloat pf v = pf (string_of v)"

definition new_document ::
  "(string \<Rightarrow> number) \<Rightarrow> bool \<Rightarrow> string list \<Rightarrow> nat \<Rightarrow> error + document \<times> nat" where
  "new_document pf bound_moment docData k =
     (let docIndex = parseFloat pf (field docData 0);
          docID = parseFloat pf (field docData 1);
          docImageSourceHD = ''Vilo3D/Docs/'' @ string_of (field docData 2);
          docImageSourceBD = ''Vilo3D/Docs/'' @ string_of (field docData 3)
      in case field docData 4 of
           None \<Rightarrow> Inl TypeError
         | Some docTitle \<Rightarrow>
             if \<not> bound_moment then Inl ReferenceError
             else
             (case field docData 5 of
                None \<Rightarrow> Inl TypeError
              | Some date \<Rightarrow>
                  (case field docData 6 of
                     None \<Rightarrow> Inl TypeError
                   | Some docMetaData \<Rightarrow>
                       (let docViewPos = \<lparr>vx = parseFloat pf (field docData 7),
                                           vy = parseFloat pf (field docData 8),
                                           vz = parseFloat pf (field docData 9)\<rparr>;
                            docViewQuat = \<lparr>qx = parseFloat pf (field docData 10),
                                            qy = parseFloat pf (field docData 11),
                                            qz = parseFloat pf (field docData 12),
                                            qw = parseFloat pf (field docData 13)\<rparr>;
                            docBillboardPos = \<lparr>vx = parseFloat pf (field docData 14),
                                                vy = parseFloat pf (field docData 15),
                                                vz = parseFloat pf (field docData 16)\<rparr>
                        in Inr (Document docTitle docIndex docID docImageSourceHD
                                  docImageSourceBD docBillboardPos docViewPos docViewQuat
                                  (Moment date) docMetaData k)))))"

function initialize_loop ::
  "(string \<Rightarrow> number) \<Rightarrow> string list list \<Rightarrow> nat \<Rightarrow> handler \<Rightarrow> outcome" where
  "initialize_loop pf docDataFromFile i s =
     (if i < length docDataFromFile
      then (case new_document pf (global_moment s) (docDataFromFile ! i) (object3DId s) of
              Inl e \<Rightarrow> (Some e, s)
            | Inr (doc, k) \<Rightarrow>
                initialize_loop pf docDataFromFile (Suc i)
                  (s\<lparr>AllDocuments := AllDocuments s @ [doc], object3DId := k\<rparr>))
      else (None, s))"
  by pat_completeness auto
termination
  by (relation "measure (\<lambda>(pf, rows, i, s). length rows - i)") auto

declare initialize_loop.simps [simp del]

definition initialize :: "(string \<Rightarrow> number) \<Rightarrow> string list list \<Rightarrow> handler \<Rightarrow> outcome" where
  "initialize pf docDataFromFile s =
     andThen (initialize_loop pf docDataFromFile 0 s)
       (\<lambda>s1. andThen (updateBrowser (s1\<lparr>currentDoc := array_get (AllDocuments s1) (Fin 0)\<rparr>))
          (\<lambda>s2. andThen (if billboardsAreActive s2 then showBillboards True s2
                         else hideBillboards True s2)
             (\<lambda>s3. (None, s3\<lparr>initEvents := Suc (initEvents s3)\<rparr>))))"

section \<open>Sequences of calls\<close>

text \<open>
  The page calls the handler from its event loop: a call that throws leaves the state
  it reached, and the next call starts from it.
\<close>

datatype call = FocusOnDoc | Update number bool int

fun step :: "call \<Rightarrow> handler \<Rightarrow> handler" where
  "step FocusOnDoc s = snd (focusOnDoc s)"
| "step (Update dt updateLoopRestarted controls_state) s =
     snd (update dt updateLoopRestarted controls_state s)"

fun run :: "call list \<Rightarrow> handler \<Rightarrow> handler" where
  "run [] s = s"
| "run (c # cs) s = run cs (step c s)"

text \<open>An \<open>update\<close> that finds the controls busy (their state is not \<open>-1\<close>).\<close>

fun travelling :: "call \<Rightarrow> bool" where
  "travelling FocusOnDoc = False"
| "travelling (Update dt updateLoopRestarted controls_state) = (controls_state \<noteq> - 1)"

text \<open>The time that an \<open>update\<close> counts: 16 ms when the loop has just restarted.\<close>

definition counted :: "number \<Rightarrow> bool \<Rightarrow> number" where
  "counted dt updateLoopRestarted = (if updateLoopRestarted then Fin 16 else dt)"


fun elapsed :: "call list \<Rightarrow> real" where
  "elapsed [] = 0"
| "elapsed (FocusOnDoc # cs) = elapsed cs"
| "elapsed (Update dt updateLoopRestarted controls_state # cs) =
     (case counted dt updateLoopRestarted of Fin e \<Rightarrow> e | _ \<Rightarrow> 0) + elapsed cs"

fun is_update :: "call \<Rightarrow> bool" where
  "is_update FocusOnDoc = False"
| "is_update (Update dt updateLoopRestarted controls_state) = True"

section \<open>Billboards of a catalogue\<close>

text \<open>
  What the constructor \<open>Document\<close> leaves: the two planes exist exactly when
  \<open>useBillboard\<close> is set.  \<open>mesh_ids\<close> are the object ids of the planes a document
  holds, \<open>billboards\<close> those of the documents of a list that use a billboard.
\<close>

definition billboard_built :: "document \<Rightarrow> bool" where
  "billboard_built d =
     (if useBillboard d
      then billboardGeometry d \<noteq> None \<and> billboardGeometryFrame d \<noteq> None
      else billboardGeometry d = None \<and> billboardGeometryFrame d = None)"

definition mesh_ids :: "document \<Rightarrow> nat set" where
  "mesh_ids d =
     mesh_id ` set_option (billboardGeometry d) \<union> mesh_id ` set_option (billboardGeometryFrame d)"

definition billboards :: "document list \<Rightarrow> nat set" where
  "billboards docs = \<Union> (mesh_ids ` {d \<in> set docs. useBillboard d})"

text \<open>
  What \<open>createBillboard\<close> writes in the \<open>userData\<close> of the two planes, and the numbering
  of the planes of a list of documents: no two planes share an object id, and every id
  is below the next free one.
\<close>

definition planes_numbered :: "nat \<Rightarrow> document list \<Rightarrow> bool" where
  "planes_numbered k docs =
     (distinct (concat (map (\<lambda>d. map mesh_id (own_meshes d)) docs))
      \<and> (\<forall>d\<in>set docs. \<forall>m\<in>set (own_meshes d). mesh_id m < k))"

definition billboard_data_built :: "document \<Rightarrow> bool" where
  "billboard_data_built d =
     ((case billboardGeometry d of
         None \<Rightarrow> True
       | Some p \<Rightarrow> userData p = Some \<lparr>bd_type = ''billboard'', bd_doc = This\<rparr>)
      \<and> (case billboardGeometryFrame d of None \<Rightarrow> True | Some f \<Rightarrow> userData f = None))"

section \<open>A small catalogue\<close>

text \<open>
  Two rows of a data file, used to run the definitions: the first document has a pose
  and a billboard, the second has neither (its cells are empty).  \<open>parse_cell\<close> stands
  for \<open>parseFloat\<close> and agrees with it on every cell of these rows that is parsed.  The
  page binds \<open>moment\<close> and not \<open>temporal\<close>, its scene is empty, and the options ask for
  a fade of 2048 ms.
\<close>

definition parse_cell :: "string \<Rightarrow> number" where
  "parse_cell str =
     (if str = ''0'' then Fin 0 else if str = ''1'' then Fin 1
      else if str = ''2'' then Fin 2 else if str = ''3'' then Fin 3
      else if str = ''10'' then Fin 10 else if str = ''11'' then Fin 11
      else NaN)"

definition catalogue :: "string list list" where
  "catalogue =
     [[''0'', ''10'', ''a.jpg'', ''a_small.jpg'', ''Title A'', ''1900-01-01'', ''about A'',
       ''1'', ''2'', ''3'', ''0'', ''0'', ''0'', ''1'', ''1'', ''2'', ''3''],
      [''1'', ''11'', ''b.jpg'', ''b_small.jpg'', ''Title B'', ''1950-01-01'', ''about B'',
       [], [], [], [], [], [], [], [], [], []]]"

definition sample_options :: options where
  "sample_options =
     \<lparr>docBrowserWindowStartActive = None, opt_temporal = False,
      docFadeDuration = Some (Fin 2048)\<rparr>"

definition sample_page :: page where
  "sample_page =
     \<lparr>page_camera = \<lparr>cam_position = \<lparr>vx = Fin 0, vy = Fin 0, vz = Fin 100\<rparr>,
                     cam_quaternion = \<lparr>qx = Fin 0, qy = Fin 0, qz = Fin 0, qw = Fin 1\<rparr>\<rparr>,
      page_scene = [],
      page_others = (\<lambda>i. \<lparr>userData_type = None, userData_doc = None\<rparr>),
      page_innerWidth = Fin 1024, page_innerHeight = Fin 512,
      page_temporal = False, page_moment = True, page_object3DId = 0\<rparr>"

definition loaded :: handler where
  "loaded = snd (initialize parse_cell catalogue (DocumentsHandler sample_options sample_page))"

text \<open>The two documents the catalogue loads to.\<close>

definition doc_a :: document where
  "doc_a =
     \<lparr>index = Fin 0, doc_ID = Fin 10,
      imageSourceHD = ''Vilo3D/Docs/a.jpg'', imageSourceBD = ''Vilo3D/Docs/a_small.jpg'',
      metaData = ''about A'', startDate = Moment ''1900-01-01'', title = ''Title A'',
      useBillboard = True,
      billboardPosition = \<lparr>vx = Fin 1, vy = Fin 2, vz = Fin 3\<rparr>,
      viewPosition = \<lparr>vx = Fin 1, vy = Fin 2, vz = Fin 3\<rparr>,
      viewQuaternion = \<lparr>qx = Fin 0, qy = Fin 0, qz = Fin 0, qw = Fin 1\<rparr>,
      billboardGeometry =
        Some \<lparr>mesh_id = 0, mesh_material = ImageTexture ''Vilo3D/Docs/a_small.jpg'',
               layer = 1, position = \<lparr>vx = Fin 1, vy = Fin 2, vz = Fin 3\<rparr>,
               userData = Some \<lparr>bd_type = ''billboard'', bd_doc = This\<rparr>\<rparr>,
      billboardGeometryFrame =
        Some \<lparr>mesh_id = 1, mesh_material = Wireframe 65450, layer = 1,
               position = \<lparr>vx = Fin 1, vy = Fin 2, vz = Fin 3\<rparr>, userData = None\<rparr>,
      docBillboardData = Some \<lparr>bd_type = ''billboard'', bd_doc = This\<rparr>\<rparr>"

definition doc_b :: document where
  "doc_b =
     \<lparr>index = Fin 1, doc_ID = Fin 11,
      imageSourceHD = ''Vilo3D/Docs/b.jpg'', imageSourceBD = ''Vilo3D/Docs/b_small.jpg'',
      metaData = ''about B'', startDate = Moment ''1950-01-01'', title = ''Title B'',
      useBillboard = False,
      billboardPosition = \<lparr>vx = NaN, vy = NaN, vz = NaN\<rparr>,
      viewPosition = \<lparr>vx = NaN, vy = NaN, vz = NaN\<rparr>,
      viewQuaternion = \<lparr>qx = NaN, qy = NaN, qz = NaN, qw = NaN\<rparr>,
      billboardGeometry = None, billboardGeometryFrame = None, docBillboardData = None\<rparr>"

text \<open>The loaded handler after \<open>focusOnDoc\<close>, and after the first frame of the fade.\<close>

definition oriented :: handler where
  "oriented = snd (focusOnDoc loaded)"

definition fading :: handler where
  "fading = snd (update (Fin 16) False (- 1) oriented)"

text \<open>The loaded handler after \<open>nextDoc\<close>: the second document is the current one.\<close>

definition second :: handler where
  "second = snd (nextDoc loaded)"

text \<open>
  The same catalogue with the billboards shown, the second document being current; and
  a ray caster for a view in which the ray through the middle of the window meets the
  frame (object 1) and then the image plane (object 0) of the first document, where
  they are among the children it is given, and any other ray meets nothing.
\<close>

definition shown :: handler where
  "shown = snd (toggleBillboards second)"

definition ray_to_a :: raycaster where
  "ray_to_a mouse cam children =
     (if mouse = \<lparr>v2x = Fin 0, v2y = Fin 0\<rparr> then filter (\<lambda>i. i \<in> set children) [1, 0]
      else [])"

text \<open>
  The same catalogue on a handler that was given the temporal option, on the same page
  (which binds no global \<open>temporal\<close>), with the billboards shown.
\<close>

definition temporal_shown :: handler where
  "temporal_shown =
     snd (toggleBillboards
            (snd (initialize parse_cell catalogue
                    (DocumentsHandler (sample_options\<lparr>opt_temporal := True\<rparr>) sample_page))))"

text \<open>
  The same catalogue on a handler that was given no fade duration, after \<open>focusOnDoc\<close>:
  the fade lasts the default 2750 ms.
\<close>

definition default_oriented :: handler where
  "default_oriented =
     snd (focusOnDoc
            (snd (initialize parse_cell catalogue
                    (DocumentsHandler (sample_options\<lparr>docFadeDuration := None\<rparr>) sample_page))))"

section \<open>Facts about doubles\<close>

lemma round_half_even_int: "round_half_even (of_int k) = k"
  by (simp add: round_half_even_def)

lemma round_half_even_bound:
  assumes "\<bar>z\<bar> \<le> of_int N"
  shows "\<bar>round_half_even z\<bar> \<le> N"
proof -
  have lo: "- N \<le> \<lfloor>z\<rfloor>" using assms by (simp add: le_floor_iff abs_le_iff)
  have hi: "\<lfloor>z\<rfloor> \<le> N" using assms by (simp add: floor_le_iff abs_le_iff)
  have up: "\<lfloor>z\<rfloor> + 1 \<le> N" if "z \<noteq> of_int \<lfloor>z\<rfloor>"
  proof -
    have "of_int \<lfloor>z\<rfloor> < z" using that of_int_floor_le[of z] by linarith
    then have "of_int \<lfloor>z\<rfloor> < (of_int N :: real)" using assms by linarith
    then show ?thesis by simp
  qed
  have "round_half_even z = \<lfloor>z\<rfloor> \<or> (round_half_even z = \<lfloor>z\<rfloor> + 1 \<and> z \<noteq> of_int \<lfloor>z\<rfloor>)"
    by (auto simp: round_half_even_def Let_def)
  then show ?thesis using lo hi up by auto
qed

lemma binade_from_cases:
  "binade_from n e a = e - int n \<or> 2 powi (binade_from n e a) \<le> a"
proof (induction n arbitrary: e)
  case 0
  show ?case by simp
next
  case (Suc n)
  show ?case using Suc[of "e - 1"] by auto
qed

lemma binade_from_range: "e - int n \<le> binade_from n e a \<and> binade_from n e a \<le> e"
proof (induction n arbitrary: e)
  case 0
  show ?case by simp
next
  case (Suc n)
  show ?case using Suc[of "e - 1"] by auto
qed

lemma binade_from_upper:
  "a < 2 powi (e + 1) \<Longrightarrow> a < 2 powi (binade_from n e a + 1)"
proof (induction n arbitrary: e)
  case 0
  then show ?case by simp
next
  case (Suc n)
  show ?case
  proof (cases "2 powi e \<le> a")
    case True
    then show ?thesis using Suc.prems by simp
  next
    case False
    then have "a < 2 powi ((e - 1) + 1)" by simp
    from Suc.IH[OF this] False show ?thesis by simp
  qed
qed

lemma binade_cases: "binade x = - 1022 \<or> 2 powi (binade x) \<le> \<bar>x\<bar>"
  using binade_from_cases[of 2045 1023 "\<bar>x\<bar>"] by (auto simp: binade_def)

lemma binade_range: "- 1022 \<le> binade x \<and> binade x \<le> 1024"
  using binade_from_range[of 1023 2045 "\<bar>x\<bar>"] by (auto simp: binade_def)

lemma binade_upper:
  assumes "\<bar>x\<bar> < 2 powi 1024"
  shows "\<bar>x\<bar> < 2 powi (binade x + 1)" and "binade x \<le> 1023"
  using assms binade_from_upper[of "\<bar>x\<bar>" 1023 2045] binade_from_range[of 1023 2045 "\<bar>x\<bar>"]
  by (simp_all add: binade_def)

text \<open>A real that has the form of a double is rounded to itself.\<close>

lemma scaled_abs_less:
  "\<bar>of_int m * 2 powi q\<bar> < (2::real) powi (int k + q) \<longleftrightarrow> \<bar>m\<bar> < 2 ^ k"
proof -
  have "\<bar>of_int m * 2 powi q\<bar> = of_int \<bar>m\<bar> * (2::real) powi q"
    by (simp add: abs_mult)
  moreover have "(2::real) powi (int k + q) = of_int (2 ^ k) * 2 powi q"
    by (simp add: power_int_add)
  moreover have "of_int \<bar>m\<bar> * (2::real) powi q < of_int (2 ^ k) * 2 powi q
                   \<longleftrightarrow> \<bar>m\<bar> < 2 ^ k"
    by (simp only: mult_less_cancel_right_pos zero_less_power_int zero_less_numeral
        of_int_less_iff)
  ultimately show ?thesis by simp
qed

lemma power_int_split: "(2::real) powi (q + int k) = 2 powi q * 2 ^ k"
  by (simp add: power_int_add)

lemma double_mantissa: "of_int (m * 2) * (2::real) powi q = of_int m * 2 powi (q + 1)"
  by (simp add: power_int_add)

lemma to_double_form:
  assumes x: "x = of_int m * 2 powi q" and m: "\<bar>m\<bar> < 2 ^ 53"
    and q: "- 1074 \<le> q" and small: "\<bar>x\<bar> < 2 powi 1024"
  shows "to_double x = Fin x"
proof (cases "x = 0")
  case True
  then show ?thesis by (simp add: to_double_def)
next
  case False
  define b where "b = binade x"
  have ax: "\<bar>x\<bar> = of_int \<bar>m\<bar> * 2 powi q"
    unfolding x by (simp add: abs_mult)
  have lt: "\<bar>x\<bar> < 2 powi (53 + q)"
  proof -
    have "of_int \<bar>m\<bar> < (2::real) ^ 53" using m by (metis of_int_less_numeral_power_cancel_iff)
    then have "of_int \<bar>m\<bar> * 2 powi q < (2::real) ^ 53 * 2 powi q"
      by simp
    also have "\<dots> = 2 powi (53 + q)"
      by (simp add: power_int_add)
    finally show ?thesis unfolding ax .
  qed
  have bq: "b - 52 \<le> q"
  proof (cases "b = - 1022")
    case True
    then show ?thesis using q by simp
  next
    case False
    then have "(2::real) powi b \<le> \<bar>x\<bar>" using binade_cases[of x] by (simp add: b_def)
    then have "(2::real) powi b < 2 powi (53 + q)" using lt by simp
    then have "b < 53 + q"
      using power_int_increasing[of "53 + q" b "2::real"] by (cases "b < 53 + q") auto
    then show ?thesis by simp
  qed
  define n where "n = nat (q - (b - 52))"
  have qn: "q = (b - 52) + int n" using bq by (simp add: n_def)
  have "x / 2 powi (b - 52) = of_int m * 2 ^ n"
    unfolding x qn by (simp add: power_int_add)
  then have "x / 2 powi (b - 52) = of_int (m * 2 ^ n)" by simp
  then have r: "of_int (round_half_even (x / 2 powi (b - 52))) * 2 powi (b - 52) = x"
    unfolding x qn by (simp only: round_half_even_int) (simp add: power_int_add)
  show ?thesis
    using False r small by (simp add: to_double_def Let_def b_def[symmetric])
qed

lemma to_double_exact:
  assumes x: "x = of_int m * 2 powi q" and m: "\<bar>m\<bar> < 2 ^ 53"
    and q: "- 1074 \<le> q" "q \<le> 971"
  shows "to_double x = Fin x"
proof (rule to_double_form[OF x m q(1)])
  have "\<bar>x\<bar> < 2 powi (int 53 + q)"
    unfolding x using m by (simp only: scaled_abs_less)
  moreover have "(2::real) powi (int 53 + q) \<le> 2 powi 1024"
    using q by (intro power_int_increasing) simp_all
  ultimately show "\<bar>x\<bar> < 2 powi 1024" by linarith
qed

text \<open>Rounding twice is rounding once: a finite result has the form of a double.\<close>

lemma to_double_idem:
  assumes "to_double x = Fin y"
  shows "to_double y = Fin y"
proof (cases "x = 0")
  case True
  then show ?thesis using assms by (auto simp: to_double_def)
next
  case False
  define b where "b = binade x"
  define m where "m = round_half_even (x / 2 powi (b - 52))"
  have y: "y = of_int m * 2 powi (b - 52)" and ylt: "\<bar>y\<bar> < 2 powi 1024"
    using assms False
    by (auto simp only: to_double_def Let_def b_def m_def number.inject not_le
          split: if_splits)
  have blo: "- 1074 \<le> b - 52" using binade_range[of x] by (simp add: b_def)
  show ?thesis
  proof (cases "\<bar>x\<bar> < 2 powi 1024")
    case False
    then have b: "b = 1024" by (simp only: b_def binade_def not_less if_True)
    have "\<bar>of_int m * 2 powi 972\<bar> < (2::real) powi (int 52 + 972)"
      using ylt unfolding y b by simp
    then have "\<bar>m\<bar> < 2 ^ 52" by (simp only: scaled_abs_less)
    then have "\<bar>m\<bar> < 2 ^ 53" by simp
    from to_double_form[OF y this blo ylt] show ?thesis .
  next
    case True
    have e: "binade x + 1 = (b - 52) + int 53" by (simp add: b_def)
    have "\<bar>x\<bar> < 2 powi (b - 52) * 2 ^ 53"
      using binade_upper(1)[OF True] unfolding e by (simp only: power_int_split)
    then have "\<bar>x\<bar> / 2 powi (b - 52) < 2 ^ 53"
      by (simp only: pos_divide_less_eq zero_less_power_int zero_less_numeral mult.commute)
    then have "\<bar>x / 2 powi (b - 52)\<bar> \<le> of_int (2 ^ 53)"
      by simp
    then have mb: "\<bar>m\<bar> \<le> 2 ^ 53" unfolding m_def by (rule round_half_even_bound)
    show ?thesis
    proof (cases "\<bar>m\<bar> < 2 ^ 53")
      case True
      from to_double_form[OF y True blo ylt] show ?thesis .
    next
      case False
      then have m53: "\<bar>m\<bar> = 2 ^ 53" using mb by simp
      define m' where "m' = (if 0 \<le> m then (2::int) ^ 52 else - (2 ^ 52))"
      have mm: "m = m' * 2" using m53 by (auto simp: m'_def)
      have y': "y = of_int m' * 2 powi ((b - 52) + 1)"
        unfolding y mm by (rule double_mantissa)
      have "\<bar>m'\<bar> < 2 ^ 53" by (simp add: m'_def)
      moreover have "- 1074 \<le> (b - 52) + 1" using blo by simp
      ultimately show ?thesis using to_double_form[OF y' _ _ ylt] by blast
    qed
  qed
qed

lemma dadd_zero_ddiv: "dadd (Fin 0) (ddiv x y) = ddiv x y"
proof (cases "ddiv x y")
  case (Fin r)
  show ?thesis
  proof (cases x)
    case fx: (Fin a)
    show ?thesis
    proof (cases y)
      case fy: (Fin b)
      show ?thesis
      proof (cases "b = 0")
        case True
        then show ?thesis using fx fy Fin by (auto simp: signed_inf_def split: if_splits)
      next
        case False
        then have "to_double (a / b) = Fin r" using fx fy Fin by simp
        from to_double_idem[OF this] show ?thesis using Fin by simp
      qed
    next
      case NaN
      then show ?thesis using fx Fin by simp
    next
      case PosInf
      then show ?thesis using fx Fin by (simp add: to_double_def)
    next
      case NegInf
      then show ?thesis using fx Fin by (simp add: to_double_def)
    qed
  next
    case NaN
    then show ?thesis using Fin by simp
  next
    case PosInf
    then show ?thesis using Fin by (cases y) (auto simp: signed_inf_def split: if_splits)
  next
    case NegInf
    then show ?thesis using Fin by (cases y) (auto simp: signed_inf_def split: if_splits)
  qed
qed simp_all

text \<open>
  Rounding a real that lies in the binade \<open>e\<close>: the nearest whole multiple of
  \<open>2 ^ (e - 52)\<close>.
\<close>

lemma binade_eq:
  assumes lo: "2 powi e \<le> \<bar>x\<bar>" and hi: "\<bar>x\<bar> < 2 powi (e + 1)"
    and r: "- 1022 \<le> e" "e \<le> 1023"
  shows "binade x = e"
proof -
  define b where "b = binade x"
  have "(2::real) powi (e + 1) \<le> 2 powi 1024"
    using r by (intro power_int_increasing) simp_all
  then have small: "\<bar>x\<bar> < 2 powi 1024" using hi by linarith
  have up: "\<bar>x\<bar> < 2 powi (b + 1)" and b_hi: "b \<le> 1023"
    unfolding b_def using binade_upper[OF small] by simp_all
  have b_lo: "- 1022 \<le> b" unfolding b_def using binade_range[of x] by simp
  have "e < b + 1"
  proof (rule ccontr)
    assume "\<not> e < b + 1"
    then have "(2::real) powi (b + 1) \<le> 2 powi e"
      by (intro power_int_increasing) simp_all
    then show False using up lo by linarith
  qed
  moreover have "b < e + 1"
  proof (rule ccontr)
    assume n: "\<not> b < e + 1"
    then have "b \<noteq> - 1022" using r by linarith
    then have "(2::real) powi b \<le> \<bar>x\<bar>" using binade_cases[of x] by (simp add: b_def)
    moreover have "(2::real) powi (e + 1) \<le> 2 powi b"
      using n by (intro power_int_increasing) simp_all
    ultimately show False using hi by linarith
  qed
  ultimately show ?thesis unfolding b_def by linarith
qed

lemma to_double_eval:
  assumes lo: "2 powi e \<le> \<bar>x\<bar>" and hi: "\<bar>x\<bar> < 2 powi (e + 1)"
    and r: "- 1022 \<le> e" "e \<le> 1022"
    and m: "round_half_even (x / 2 powi (e - 52)) = m"
  shows "to_double x = Fin (of_int m * 2 powi (e - 52))"
proof -
  have b: "binade x = e" using binade_eq[OF lo hi] r by simp
  have "0 < (2::real) powi e" by simp
  then have "0 < \<bar>x\<bar>" using lo by linarith
  then have nz: "x \<noteq> 0" by simp
  have "e - 52 + int 53 = e + 1" by simp
  then have split: "(2::real) powi (e + 1) = 2 powi (e - 52) * 2 ^ 53"
    using power_int_split[of "e - 52" 53] by (simp only:)
  have "\<bar>x / 2 powi (e - 52)\<bar> = \<bar>x\<bar> / 2 powi (e - 52)" by simp
  also have "\<dots> \<le> 2 powi (e + 1) / 2 powi (e - 52)"
    using hi by (simp add: divide_right_mono)
  also have "\<dots> = 2 ^ 53"
    unfolding split by simp
  finally have "\<bar>x / 2 powi (e - 52)\<bar> \<le> of_int (2 ^ 53)" by simp
  then have mb: "\<bar>m\<bar> \<le> 2 ^ 53"
    using round_half_even_bound[of "x / 2 powi (e - 52)" "2 ^ 53"] m by simp
  have "\<bar>of_int m * (2::real) powi (e - 52)\<bar> = of_int \<bar>m\<bar> * 2 powi (e - 52)"
    by (simp add: abs_mult)
  also have "\<dots> \<le> of_int (2 ^ 53) * 2 powi (e - 52)"
    using mb by (intro mult_right_mono) (simp_all del: of_int_power of_int_numeral)
  also have "\<dots> = 2 powi (e + 1)"
    unfolding split by simp
  also have "\<dots> < 2 powi 1024"
    using r by (intro power_int_strict_increasing) simp_all
  finally have "\<not> 2 powi 1024 \<le> \<bar>of_int m * (2::real) powi (e - 52)\<bar>" by simp
  then show ?thesis
    using nz b m by (simp only: to_double_def Let_def if_False)
qed

section \<open>Basic facts\<close>

lemma andThen_simps:
  "andThen (None, s) f = f s"
  "andThen (Some e, s) f = (Some e, s)"
  by (simp_all add: andThen_def)

lemma forEach_lookAt_state: "snd (forEach lookAt_billboard xs s) = s"
proof (induction xs)
  case Nil
  show ?case by simp
next
  case (Cons x xs)
  show ?case
  proof (cases "useBillboard x \<and> null_mesh x \<noteq> None")
    case True
    then show ?thesis by (auto simp: lookAt_billboard_def andThen_simps)
  next
    case False
    then show ?thesis using Cons.IH by (auto simp: lookAt_billboard_def andThen_simps)
  qed
qed

text \<open>Showing and hiding billboards only writes the scene.\<close>

lemma forEach_hide_frame: "\<exists>e cs. forEach hide_billboard xs s = (e, s\<lparr>scene := cs\<rparr>)"
proof (induction xs arbitrary: s)
  case Nil
  have "forEach hide_billboard [] s = (None, s\<lparr>scene := scene s\<rparr>)" by simp
  then show ?case by blast
next
  case (Cons x xs)
  show ?case
  proof (cases "useBillboard x")
    case False
    then have "forEach hide_billboard (x # xs) s = forEach hide_billboard xs s"
      by (simp add: hide_billboard_def andThen_simps)
    then show ?thesis using Cons.IH by simp
  next
    case True
    define s1 where "s1 = s\<lparr>scene := remove_mesh (billboardGeometryFrame x)
                         (remove_mesh (billboardGeometry x) (scene s))\<rparr>"
    show ?thesis
    proof (cases "null_mesh x")
      case None
      then have "forEach hide_billboard (x # xs) s = forEach hide_billboard xs s1"
        using True by (simp add: hide_billboard_def andThen_simps s1_def)
      moreover obtain e cs where "forEach hide_billboard xs s1 = (e, s1\<lparr>scene := cs\<rparr>)"
        using Cons.IH by blast
      ultimately have "forEach hide_billboard (x # xs) s = (e, s\<lparr>scene := cs\<rparr>)"
        by (simp add: s1_def)
      then show ?thesis by blast
    next
      case (Some err)
      then have "forEach hide_billboard (x # xs) s = (Some err, s1)"
        using True by (simp add: hide_billboard_def andThen_simps s1_def)
      then show ?thesis unfolding s1_def by blast
    qed
  qed
qed

lemma hideBillboards_frame:
  "\<exists>e s'. hideBillboards b s = (e, s') \<and> isOrientingDoc s' = isOrientingDoc s
     \<and> isFadingDoc s' = isFadingDoc s \<and> fadeAlpha s' = fadeAlpha s
     \<and> fadeDuration s' = fadeDuration s
     \<and> AllDocuments s' = AllDocuments s \<and> currentDoc s' = currentDoc s
     \<and> travels s' = travels s
     \<and> docFullImg_opacity (html s') = docFullImg_opacity (html s)
     \<and> docFullImg_src (html s') = docFullImg_src (html s)
     \<and> docFull_display (html s') = docFull_display (html s)"
proof (cases "\<not> b \<and> billboardsAreActive s")
  case True
  then show ?thesis by (simp add: hideBillboards_def)
next
  case False
  define s0 where
    "s0 = s\<lparr>html := (html s)\<lparr>docBrowserToggleBillboard := ''Afficher Billboards''\<rparr>\<rparr>"
  obtain e cs where fe: "forEach hide_billboard (AllDocuments s) s0 = (e, s0\<lparr>scene := cs\<rparr>)"
    using forEach_hide_frame by blast
  show ?thesis
  proof (cases e)
    case None
    with False fe show ?thesis
      by (simp add: hideBillboards_def andThen_simps notifyChange_def s0_def)
  next
    case (Some err)
    with False fe show ?thesis
      by (simp add: hideBillboards_def andThen_simps notifyChange_def s0_def)
  qed
qed

lemma focusOnDoc_returned:
  assumes "focusOnDoc s0 = (None, s)"
  shows "isOrientingDoc s" and "\<not> isFadingDoc s"
    and "docFullImg_opacity (html s) = Some 0"
    and "fadeDuration s = fadeDuration s0"
proof -
  from assms obtain d where d: "currentDoc s0 = Some d"
    by (cases "currentDoc s0") (auto simp: focusOnDoc_def)
  define s1 where "s1 = s0\<lparr>html := (html s0)\<lparr>docFullImg_src := Some (imageSourceHD d),
                                          docBrowserPreviewImg_src := imageSourceBD d,
                                          docFullImg_opacity := Some 0,
                                          docOpaSlider := 0,
                                          docOpacity := Fin 0,
                                          docFull_display := ''block'',
                                          docFullPanel_display := ''none''\<rparr>\<rparr>"
  define s2 where "s2 = (if \<not> isNaN (vx (viewPosition d)) \<and> \<not> isNaN (qx (viewQuaternion d))
                     then s1\<lparr>travels := travels s1 @ [(viewPosition d, viewQuaternion d)]\<rparr>
                     else s1)"
  define s3 where "s3 = (if temporal s2 then s2\<lparr>timeChanges := timeChanges s2 @ [startDate d]\<rparr>
                      else s2)"
  have op: "docFullImg_opacity (html s3) = Some 0" "fadeDuration s3 = fadeDuration s0"
    by (simp_all add: s3_def s2_def s1_def)
  obtain e s4 where h: "hideBillboards True s3 = (e, s4)"
      "docFullImg_opacity (html s4) = docFullImg_opacity (html s3)"
      "fadeDuration s4 = fadeDuration s3"
    using hideBillboards_frame[of True s3] by blast
  have ok: "\<not> (temporal s0 \<and> \<not> global_temporal s0)"
    using assms d by (auto simp: focusOnDoc_def Let_def split: if_splits)
  have eq: "focusOnDoc s0 =
     andThen (hideBillboards True s3)
        (\<lambda>s3. notifyChange False (s3\<lparr>isOrientingDoc := True, isFadingDoc := False\<rparr>))"
    using d ok by (simp add: focusOnDoc_def s3_def s2_def s1_def Let_def)
  show "isOrientingDoc s" "\<not> isFadingDoc s" "docFullImg_opacity (html s) = Some 0"
    "fadeDuration s = fadeDuration s0"
    using assms h op unfolding eq by (cases e; auto simp: andThen_simps notifyChange_def)+
qed

lemma run_append: "run (xs @ ys) s = run ys (run xs s)"
  by (induction xs arbitrary: s) simp_all

lemma update_travelling:
  assumes "isOrientingDoc s" "\<not> isFadingDoc s" "c \<noteq> - 1"
  shows "snd (update dt r c s) = s"
  using assms by (simp add: update_def Let_def forEach_lookAt_state)

lemma run_travelling:
  assumes "isOrientingDoc s" "\<not> isFadingDoc s" "\<forall>c\<in>set cs. travelling c"
  shows "run cs s = s"
  using assms
proof (induction cs)
  case Nil
  show ?case by simp
next
  case (Cons c cs)
  then have "travelling c" by simp
  then obtain dt r st where c: "c = Update dt r st" "st \<noteq> - 1"
    by (cases c) auto
  then have "step c s = s" using Cons.prems by (simp add: update_travelling)
  then show ?case using Cons by simp
qed

text \<open>
  The first frame of a fade: \<open>fadeAlpha\<close> restarts from 0, and \<open>0 + q\<close> is the
  quotient \<open>q\<close> itself.
\<close>

lemma update_begin_fade:
  assumes "isOrientingDoc s"
  shows "\<not> isOrientingDoc (snd (update dt r (- 1) s))"
    and "fadeAlpha (snd (update dt r (- 1) s)) = ddiv (counted dt r) (fadeDuration s)"
    and "isFadingDoc (snd (update dt r (- 1) s))
           = (\<not> dge (ddiv (counted dt r) (fadeDuration s)) (Fin 1))"
    and "docFullImg_opacity (html (snd (update dt r (- 1) s)))
           = (if dge (ddiv (counted dt r) (fadeDuration s)) (Fin 1) then Some 1
              else style_opacity (ddiv (counted dt r) (fadeDuration s)) (Some 0))"
  using assms
  by (simp_all add: update_def Let_def forEach_lookAt_state counted_def dadd_zero_ddiv)

lemma update_no_restart:
  assumes "\<not> isOrientingDoc s"
  shows "fadeAlpha (snd (update dt r c s)) =
           (if isFadingDoc s then dadd (fadeAlpha s) (ddiv (counted dt r) (fadeDuration s))
            else fadeAlpha s)"
    and "\<not> isOrientingDoc (snd (update dt r c s))"
  using assms by (simp_all add: update_def Let_def forEach_lookAt_state counted_def)

lemma update_keeps_duration: "fadeDuration (snd (update dt r c s)) = fadeDuration s"
  by (simp add: update_def Let_def forEach_lookAt_state)

lemma update_fade_step:
  assumes "isFadingDoc s" "\<not> isOrientingDoc s"
  shows "fadeAlpha (snd (update dt r c s))
           = dadd (fadeAlpha s) (ddiv (counted dt r) (fadeDuration s))"
    and "isFadingDoc (snd (update dt r c s))
           = (\<not> dge (dadd (fadeAlpha s) (ddiv (counted dt r) (fadeDuration s))) (Fin 1))"
    and "docFullImg_opacity (html (snd (update dt r c s)))
           = (if dge (dadd (fadeAlpha s) (ddiv (counted dt r) (fadeDuration s))) (Fin 1)
              then Some 1
              else style_opacity (dadd (fadeAlpha s) (ddiv (counted dt r) (fadeDuration s)))
                     (docFullImg_opacity (html s)))"
    and "\<not> isOrientingDoc (snd (update dt r c s))"
  using assms by (simp_all add: update_def Let_def forEach_lookAt_state counted_def)


lemma run_updates_not_orienting:
  assumes "\<not> isOrientingDoc s" "\<forall>u\<in>set us. is_update u"
  shows "\<not> isOrientingDoc (run us s)"
  using assms
proof (induction us arbitrary: s)
  case Nil
  then show ?case by simp
next
  case (Cons u us)
  then obtain dt r c where u: "u = Update dt r c" by (cases u) auto
  have "\<not> isOrientingDoc (step u s)"
    unfolding u using update_no_restart(2)[OF Cons.prems(1)] by simp
  then show ?case using Cons by simp
qed

lemma run_updates_duration:
  assumes "\<forall>u\<in>set us. is_update u"
  shows "fadeDuration (run us s) = fadeDuration s"
  using assms
proof (induction us arbitrary: s)
  case Nil
  show ?case by simp
next
  case (Cons u us)
  then obtain a b c where "u = Update a b c" by (cases u) auto
  then show ?case using Cons by (simp add: update_keeps_duration)
qed

section \<open>The catalogue, evaluated\<close>

lemma new_a: "new_document parse_cell True (catalogue ! 0) 0 = Inr (doc_a, 2)"
  by (simp add: new_document_def catalogue_def field_def parseFloat_def string_of_def
      parse_cell_def Document_def createBillboard_def Let_def doc_a_def)

lemma new_b: "new_document parse_cell True (catalogue ! Suc 0) 2 = Inr (doc_b, 2)"
  by (simp add: new_document_def catalogue_def field_def parseFloat_def string_of_def
      parse_cell_def Document_def createBillboard_def Let_def doc_b_def)

lemma len_cat: "length catalogue = 2" by (simp add: catalogue_def)

lemma loaded_eq: "loaded =
  \<lparr>docBrowserWindowIsActive = False, billboardsAreActive = False,
    showBillboardButton = False, temporal = False,
    AllDocuments = [doc_a, doc_b],
    currentDoc = Some doc_a,
    fadeDuration = Fin 2048, isOrientingDoc = False, isFadingDoc = False,
    fadeAlpha = Fin 0,
    html =
      \<lparr>docBrowserWindow_display = ''none'', docBrowserTitle = ''Title A'',
         docBrowserMetaData = ''about A'',
         docBrowserPreviewImg_src = ''Vilo3D/Docs/a_small.jpg'',
         docBrowserIndex = Some (Fin 0), docFull_display = [],
         docFullImg_src = None, docFullImg_opacity = None,
         docFullPanel_display = [], docOpaSlider = 75, docOpacity = Fin 50,
         docBrowserToggleBillboard = ''Afficher Billboards'',
         docBrowserToggleBillboard_display = ''none''\<rparr>,
    camera = \<lparr>cam_position = \<lparr>vx = Fin 0, vy = Fin 0, vz = Fin 100\<rparr>,
               cam_quaternion = \<lparr>qx = Fin 0, qy = Fin 0, qz = Fin 0, qw = Fin 1\<rparr>\<rparr>,
    scene = [],
    others = (\<lambda>i. \<lparr>userData_type = None, userData_doc = None\<rparr>),
    notified = [True], travels = [], timeChanges = [],
    initEvents = 1, innerWidth = Fin 1024, innerHeight = Fin 512,
    global_temporal = False, global_moment = True, object3DId = 2\<rparr>"
  by (simp add: loaded_def initialize_def initialize_loop.simps len_cat DocumentsHandler_def
      sample_options_def sample_page_def Let_def
      new_a new_b andThen_simps updateBrowser_def hideBillboards_def hide_billboard_def
      null_mesh_def notifyChange_def remove_mesh_def scene_remove_def doc_a_def doc_b_def)

lemma oriented_eq: "focusOnDoc loaded = (None, oriented)"
proof -
  have "fst (focusOnDoc loaded) = None"
    by (simp add: loaded_eq focusOnDoc_def Let_def doc_a_def doc_b_def andThen_simps
        hideBillboards_def hide_billboard_def null_mesh_def notifyChange_def
        remove_mesh_def scene_remove_def)
  then show ?thesis by (simp add: oriented_def prod_eq_iff)
qed

lemma oriented_duration: "fadeDuration oriented = Fin 2048"
  using focusOnDoc_returned(4)[OF oriented_eq] by (simp add: loaded_eq)

text \<open>Quotients and sums of the sample runs: all are small multiples of powers of two.\<close>

lemma sample_doubles:
  "to_double (1 / 128) = Fin (1 / 128)"
  "to_double (1 / 64) = Fin (1 / 64)"
  "to_double (125 / 256) = Fin (125 / 256)"
  "to_double (375 / 256) = Fin (375 / 256)"
  "to_double (127 / 256) = Fin (127 / 256)"
  "to_double (379 / 256) = Fin (379 / 256)"
proof -
  show "to_double (1 / 128) = Fin (1 / 128)"
    by (rule to_double_exact[of _ 1 "- 7"]) simp_all
  show "to_double (1 / 64) = Fin (1 / 64)"
    by (rule to_double_exact[of _ 1 "- 6"]) simp_all
  show "to_double (125 / 256) = Fin (125 / 256)"
    by (rule to_double_exact[of _ 125 "- 8"]) simp_all
  show "to_double (375 / 256) = Fin (375 / 256)"
    by (rule to_double_exact[of _ 375 "- 8"]) simp_all
  show "to_double (127 / 256) = Fin (127 / 256)"
    by (rule to_double_exact[of _ 127 "- 8"]) simp_all
  show "to_double (379 / 256) = Fin (379 / 256)"
    by (rule to_double_exact[of _ 379 "- 8"]) simp_all
qed

lemma fading_facts:
  "isFadingDoc fading" "\<not> isOrientingDoc fading" "fadeAlpha fading = Fin (1 / 128)"
  "fadeDuration fading = Fin 2048" "docFullImg_opacity (html fading) = Some (1 / 128)"
proof -
  have o: "isOrientingDoc oriented" using focusOnDoc_returned(1)[OF oriented_eq] .
  show "isFadingDoc fading" "\<not> isOrientingDoc fading" "fadeAlpha fading = Fin (1 / 128)"
    "docFullImg_opacity (html fading) = Some (1 / 128)"
    unfolding fading_def using update_begin_fade[OF o, of "Fin 16" False] oriented_duration
    by (simp_all add: counted_def sample_doubles)
  show "fadeDuration fading = Fin 2048"
    unfolding fading_def by (simp add: update_keeps_duration oriented_duration)
qed

section \<open>The oriented view\<close>

text \<open>
  Claim C1.  Once \<open>focusOnDoc\<close> has returned, the fade of the full image waits for the
  camera: through every sequence \<open>cs\<close> of \<open>update\<close> calls that find the controls busy
  the handler stays orienting, not fading, with the image at opacity 0 and \<open>fadeAlpha\<close>
  untouched.  The first \<open>update\<close> that finds the controls idle (state \<open>-1\<close>) leaves the
  orienting state and starts the fade from 0: after it \<open>fadeAlpha\<close> is that frame's
  share of the duration (the quotient that the call computes, in double arithmetic),
  and the handler is fading unless this share already reaches 1.
  No later \<open>update\<close> starts the fade again: the handler is not orienting after any
  further \<open>update\<close> calls \<open>us\<close>, and the next call only adds its share to \<open>fadeAlpha\<close>.
\<close>

theorem fade_starts_after_travel:
  assumes "focusOnDoc s0 = (None, s)"
    and "\<forall>c\<in>set cs. travelling c"
    and "\<forall>u\<in>set us. is_update u"
  shows "isOrientingDoc (run cs s) \<and> \<not> isFadingDoc (run cs s)
       \<and> docFullImg_opacity (html (run cs s)) = Some 0
       \<and> fadeAlpha (run cs s) = fadeAlpha s
       \<and> \<not> isOrientingDoc (run (cs @ [Update dt r (- 1)]) s)
       \<and> fadeAlpha (run (cs @ [Update dt r (- 1)]) s) = ddiv (counted dt r) (fadeDuration s)
       \<and> isFadingDoc (run (cs @ [Update dt r (- 1)]) s)
            = (\<not> dge (ddiv (counted dt r) (fadeDuration s)) (Fin 1))
       \<and> docFullImg_opacity (html (run (cs @ [Update dt r (- 1)]) s))
            = (if dge (ddiv (counted dt r) (fadeDuration s)) (Fin 1) then Some 1
               else style_opacity (ddiv (counted dt r) (fadeDuration s)) (Some 0))
       \<and> \<not> isOrientingDoc (run (cs @ [Update dt r (- 1)] @ us) s)
       \<and> fadeAlpha (run (cs @ [Update dt r (- 1)] @ us @ [Update dt' r' c']) s)
            = (if isFadingDoc (run (cs @ [Update dt r (- 1)] @ us) s)
               then dadd (fadeAlpha (run (cs @ [Update dt r (- 1)] @ us) s))
                      (ddiv (counted dt' r') (fadeDuration s))
               else fadeAlpha (run (cs @ [Update dt r (- 1)] @ us) s))"
proof -
  have o: "isOrientingDoc s" "\<not> isFadingDoc s" "docFullImg_opacity (html s) = Some 0"
    using focusOnDoc_returned[OF assms(1)] by simp_all
  have stay: "run cs s = s" using run_travelling[OF o(1,2) assms(2)] .
  define t where "t = snd (update dt r (- 1) s)"
  have app: "run (cs @ [Update dt r (- 1)]) s = t"
    using stay by (simp add: run_append t_def)
  have t: "\<not> isOrientingDoc t" "fadeAlpha t = ddiv (counted dt r) (fadeDuration s)"
    "isFadingDoc t = (\<not> dge (ddiv (counted dt r) (fadeDuration s)) (Fin 1))"
    "docFullImg_opacity (html t)
       = (if dge (ddiv (counted dt r) (fadeDuration s)) (Fin 1) then Some 1
          else style_opacity (ddiv (counted dt r) (fadeDuration s)) (Some 0))"
    unfolding t_def using update_begin_fade[OF o(1)] by simp_all
  define w where "w = run us t"
  have app2: "run (cs @ [Update dt r (- 1)] @ us) s = w"
    using stay by (simp add: run_append t_def w_def)
  have w: "\<not> isOrientingDoc w"
    unfolding w_def using run_updates_not_orienting[OF t(1) assms(3)] .
  have dw: "fadeDuration w = fadeDuration s"
    unfolding w_def t_def using run_updates_duration[OF assms(3)]
    by (simp add: update_keeps_duration)
  have app3: "run (cs @ [Update dt r (- 1)] @ us @ [Update dt' r' c']) s
                = snd (update dt' r' c' w)"
    using stay by (simp add: run_append t_def w_def)
  have last: "fadeAlpha (snd (update dt' r' c' w))
      = (if isFadingDoc w then dadd (fadeAlpha w) (ddiv (counted dt' r') (fadeDuration s))
         else fadeAlpha w)"
    using update_no_restart(1)[OF w, of dt' r' c'] dw by simp
  show ?thesis
    unfolding app app2 app3 stay using o t w last by simp
qed

theorem fade_starts_after_travel_witness:
  "focusOnDoc loaded = (None, oriented)
   \<and> travelling (Update (Fin 16) False 2) \<and> travelling (Update (Fin 40) True 1)
   \<and> is_update (Update (Fin 16) False (- 1))
   \<and> isOrientingDoc (run [Update (Fin 16) False 2, Update (Fin 40) True 1] oriented)
   \<and> \<not> isFadingDoc (run [Update (Fin 16) False 2, Update (Fin 40) True 1] oriented)
   \<and> docFullImg_opacity (html (run [Update (Fin 16) False 2, Update (Fin 40) True 1] oriented))
       = Some 0
   \<and> \<not> isOrientingDoc
        (run ([Update (Fin 16) False 2, Update (Fin 40) True 1] @ [Update (Fin 16) False (- 1)])
           oriented)
   \<and> isFadingDoc
        (run ([Update (Fin 16) False 2, Update (Fin 40) True 1] @ [Update (Fin 16) False (- 1)])
           oriented)
   \<and> fadeAlpha
        (run ([Update (Fin 16) False 2, Update (Fin 40) True 1] @ [Update (Fin 16) False (- 1)])
           oriented)
       = Fin (1 / 128)
   \<and> docFullImg_opacity (html
        (run ([Update (Fin 16) False 2, Update (Fin 40) True 1] @ [Update (Fin 16) False (- 1)])
           oriented))
       = Some (1 / 128)"
  using fade_starts_after_travel [OF oriented_eq,
      of "[Update (Fin 16) False 2, Update (Fin 40) True 1]" "[Update (Fin 16) False (- 1)]"
         "Fin 16" False "Fin 16" False 0]
    oriented_eq oriented_duration
  by (simp add: counted_def sample_doubles)






subsection \<open>Rounding in a fade\<close>

lemma frame_share: "ddiv (Fin 275) (Fin 2750) = Fin (3602879701896397 / 36028797018963968)"
proof -
  have "to_double (275 / 2750) = Fin (of_int 7205759403792794 * 2 powi (- 4 - 52))"
    by (rule to_double_eval) (simp_all add: round_half_even_def Let_def)
  then show ?thesis by simp
qed

lemma frame_sum_2: "dadd (Fin (3602879701896397 / 36028797018963968)) (Fin (3602879701896397 / 36028797018963968)) = Fin (3602879701896397 / 18014398509481984)"
proof -
  have "to_double (3602879701896397 / 36028797018963968 + 3602879701896397 / 36028797018963968) = Fin (of_int 7205759403792794 * 2 powi (- 3 - 52))"
    by (rule to_double_eval) (simp_all add: round_half_even_def Let_def)
  then show ?thesis by simp
qed

lemma frame_sum_3: "dadd (Fin (3602879701896397 / 18014398509481984)) (Fin (3602879701896397 / 36028797018963968)) = Fin (1351079888211149 / 4503599627370496)"
proof -
  have "to_double (3602879701896397 / 18014398509481984 + 3602879701896397 / 36028797018963968) = Fin (of_int 5404319552844596 * 2 powi (- 2 - 52))"
    by (rule to_double_eval) (simp_all add: round_half_even_def Let_def)
  then show ?thesis by simp
qed

lemma frame_sum_4: "dadd (Fin (1351079888211149 / 4503599627370496)) (Fin (3602879701896397 / 36028797018963968)) = Fin (3602879701896397 / 9007199254740992)"
proof -
  have "to_double (1351079888211149 / 4503599627370496 + 3602879701896397 / 36028797018963968) = Fin (of_int 7205759403792794 * 2 powi (- 2 - 52))"
    by (rule to_double_eval) (simp_all add: round_half_even_def Let_def)
  then show ?thesis by simp
qed

lemma frame_sum_5: "dadd (Fin (3602879701896397 / 9007199254740992)) (Fin (3602879701896397 / 36028797018963968)) = Fin (1 / 2)"
proof -
  have "to_double (3602879701896397 / 9007199254740992 + 3602879701896397 / 36028797018963968) = Fin (of_int 4503599627370496 * 2 powi (- 1 - 52))"
    by (rule to_double_eval) (simp_all add: round_half_even_def Let_def)
  then show ?thesis by simp
qed

lemma frame_sum_6: "dadd (Fin (1 / 2)) (Fin (3602879701896397 / 36028797018963968)) = Fin (5404319552844595 / 9007199254740992)"
proof -
  have "to_double (1 / 2 + 3602879701896397 / 36028797018963968) = Fin (of_int 5404319552844595 * 2 powi (- 1 - 52))"
    by (rule to_double_eval) (simp_all add: round_half_even_def Let_def)
  then show ?thesis by simp
qed

lemma frame_sum_7: "dadd (Fin (5404319552844595 / 9007199254740992)) (Fin (3602879701896397 / 36028797018963968)) = Fin (3152519739159347 / 4503599627370496)"
proof -
  have "to_double (5404319552844595 / 9007199254740992 + 3602879701896397 / 36028797018963968) = Fin (of_int 6305039478318694 * 2 powi (- 1 - 52))"
    by (rule to_double_eval) (simp_all add: round_half_even_def Let_def)
  then show ?thesis by simp
qed

lemma frame_sum_8: "dadd (Fin (3152519739159347 / 4503599627370496)) (Fin (3602879701896397 / 36028797018963968)) = Fin (7205759403792793 / 9007199254740992)"
proof -
  have "to_double (3152519739159347 / 4503599627370496 + 3602879701896397 / 36028797018963968) = Fin (of_int 7205759403792793 * 2 powi (- 1 - 52))"
    by (rule to_double_eval) (simp_all add: round_half_even_def Let_def)
  then show ?thesis by simp
qed

lemma frame_sum_9: "dadd (Fin (7205759403792793 / 9007199254740992)) (Fin (3602879701896397 / 36028797018963968)) = Fin (2026619832316723 / 2251799813685248)"
proof -
  have "to_double (7205759403792793 / 9007199254740992 + 3602879701896397 / 36028797018963968) = Fin (of_int 8106479329266892 * 2 powi (- 1 - 52))"
    by (rule to_double_eval) (simp_all add: round_half_even_def Let_def)
  then show ?thesis by simp
qed

lemma frame_sum_10: "dadd (Fin (2026619832316723 / 2251799813685248)) (Fin (3602879701896397 / 36028797018963968)) = Fin (9007199254740991 / 9007199254740992)"
proof -
  have "to_double (2026619832316723 / 2251799813685248 + 3602879701896397 / 36028797018963968) = Fin (of_int 9007199254740991 * 2 powi (- 1 - 52))"
    by (rule to_double_eval) (simp_all add: round_half_even_def Let_def)
  then show ?thesis by simp
qed

lemma default_loaded:
  "initialize parse_cell catalogue
     (DocumentsHandler (sample_options\<lparr>docFadeDuration := None\<rparr>) sample_page)
     = (None, loaded\<lparr>fadeDuration := Fin 2750\<rparr>)"
  by (simp add: loaded_eq initialize_def initialize_loop.simps len_cat DocumentsHandler_def
      sample_options_def sample_page_def Let_def
      new_a new_b andThen_simps updateBrowser_def hideBillboards_def hide_billboard_def
      null_mesh_def notifyChange_def remove_mesh_def scene_remove_def doc_a_def doc_b_def)

lemma default_oriented_eq:
  "focusOnDoc (loaded\<lparr>fadeDuration := Fin 2750\<rparr>) = (None, default_oriented)"
proof -
  have "fst (focusOnDoc (loaded\<lparr>fadeDuration := Fin 2750\<rparr>)) = None"
    by (simp add: loaded_eq focusOnDoc_def Let_def doc_a_def doc_b_def andThen_simps
        hideBillboards_def hide_billboard_def null_mesh_def notifyChange_def
        remove_mesh_def scene_remove_def)
  then show ?thesis by (simp add: default_oriented_def default_loaded prod_eq_iff)
qed

lemma default_oriented_facts:
  "isOrientingDoc default_oriented" "fadeDuration default_oriented = Fin 2750"
  using focusOnDoc_returned(1,4)[OF default_oriented_eq] by simp_all

text \<open>One frame of a fade whose quotient and sum are known.\<close>

lemma fade_frame:
  assumes "isFadingDoc s" and "\<not> isOrientingDoc s"
    and "fadeAlpha s = Fin a" and "fadeDuration s = Fin D"
    and "ddiv (Fin e) (Fin D) = Fin q" and "dadd (Fin a) (Fin q) = Fin a'" and "a' < 1"
  shows "isFadingDoc (snd (update (Fin e) False c s))"
    and "\<not> isOrientingDoc (snd (update (Fin e) False c s))"
    and "fadeAlpha (snd (update (Fin e) False c s)) = Fin a'"
    and "fadeDuration (snd (update (Fin e) False c s)) = Fin D"
    and "docFullImg_opacity (html (snd (update (Fin e) False c s))) = Some a'"
proof -
  have c: "counted (Fin e) False = Fin e" by (simp add: counted_def)
  have sum: "dadd (fadeAlpha s) (ddiv (counted (Fin e) False) (fadeDuration s)) = Fin a'"
    unfolding c assms(3,4,5,6) ..
  show "isFadingDoc (snd (update (Fin e) False c s))"
    using update_fade_step(2)[OF assms(1,2), of "Fin e" False c] assms(7) unfolding sum by simp
  show "\<not> isOrientingDoc (snd (update (Fin e) False c s))"
    using update_fade_step(4)[OF assms(1,2)] .
  show "fadeAlpha (snd (update (Fin e) False c s)) = Fin a'"
    using update_fade_step(1)[OF assms(1,2), of "Fin e" False c] unfolding sum .
  show "fadeDuration (snd (update (Fin e) False c s)) = Fin D"
    using assms(4) by (simp add: update_keeps_duration)
  show "docFullImg_opacity (html (snd (update (Fin e) False c s))) = Some a'"
    using update_fade_step(3)[OF assms(1,2), of "Fin e" False c] assms(7) unfolding sum by simp
qed

text \<open>
  Rounding shows in a fade of the default duration, 2750 ms, that is given ten frames
  of 275 ms: the ten shares of one tenth add up to the double just below 1, so after
  the whole duration the image is not at full opacity and the fade is still going on.
\<close>

lemma fade_rounds:
  "isOrientingDoc default_oriented \<and> fadeDuration default_oriented = Fin 2750
   \<and> elapsed (Update (Fin 275) False (- 1) # replicate 9 (Update (Fin 275) False 0)) = 2750
   \<and> isFadingDoc
        (run (Update (Fin 275) False (- 1) # replicate 9 (Update (Fin 275) False 0))
           default_oriented)
   \<and> fadeAlpha
        (run (Update (Fin 275) False (- 1) # replicate 9 (Update (Fin 275) False 0))
           default_oriented) = Fin (9007199254740991 / 9007199254740992)
   \<and> docFullImg_opacity (html
        (run (Update (Fin 275) False (- 1) # replicate 9 (Update (Fin 275) False 0))
           default_oriented)) = Some (9007199254740991 / 9007199254740992)"
proof -
  define s1 where "s1 = snd (update (Fin 275) False (- 1) default_oriented)"
  define s2 where "s2 = snd (update (Fin 275) False 0 s1)"
  define s3 where "s3 = snd (update (Fin 275) False 0 s2)"
  define s4 where "s4 = snd (update (Fin 275) False 0 s3)"
  define s5 where "s5 = snd (update (Fin 275) False 0 s4)"
  define s6 where "s6 = snd (update (Fin 275) False 0 s5)"
  define s7 where "s7 = snd (update (Fin 275) False 0 s6)"
  define s8 where "s8 = snd (update (Fin 275) False 0 s7)"
  define s9 where "s9 = snd (update (Fin 275) False 0 s8)"
  define s10 where "s10 = snd (update (Fin 275) False 0 s9)"
  have q: "ddiv (counted (Fin 275) False) (fadeDuration default_oriented) = Fin (3602879701896397 / 36028797018963968)"
    by (simp only: counted_def if_False default_oriented_facts(2) frame_share)
  have f1: "isFadingDoc s1" "\<not> isOrientingDoc s1" "fadeAlpha s1 = Fin (3602879701896397 / 36028797018963968)"
    "fadeDuration s1 = Fin 2750"
    unfolding s1_def
    using update_begin_fade(1,2,3)[OF default_oriented_facts(1), of "Fin 275" False]
      default_oriented_facts(2)
    unfolding q by (simp_all add: update_keeps_duration)
  note f2 = fade_frame[OF f1 frame_share frame_sum_2, of 0, folded s2_def, simplified]
  note f3 = fade_frame[OF f2(1,2,3,4) frame_share frame_sum_3, of 0, folded s3_def, simplified]
  note f4 = fade_frame[OF f3(1,2,3,4) frame_share frame_sum_4, of 0, folded s4_def, simplified]
  note f5 = fade_frame[OF f4(1,2,3,4) frame_share frame_sum_5, of 0, folded s5_def, simplified]
  note f6 = fade_frame[OF f5(1,2,3,4) frame_share frame_sum_6, of 0, folded s6_def, simplified]
  note f7 = fade_frame[OF f6(1,2,3,4) frame_share frame_sum_7, of 0, folded s7_def, simplified]
  note f8 = fade_frame[OF f7(1,2,3,4) frame_share frame_sum_8, of 0, folded s8_def, simplified]
  note f9 = fade_frame[OF f8(1,2,3,4) frame_share frame_sum_9, of 0, folded s9_def, simplified]
  note f10 = fade_frame[OF f9(1,2,3,4) frame_share frame_sum_10, of 0, folded s10_def, simplified]
  have r: "run (Update (Fin 275) False (- 1) # replicate 9 (Update (Fin 275) False 0))
             default_oriented = s10"
    by (simp add: numeral_eq_Suc s1_def s2_def s3_def s4_def s5_def s6_def s7_def s8_def s9_def
        s10_def)
  have e: "elapsed (Update (Fin 275) False (- 1) # replicate 9 (Update (Fin 275) False 0)) = 2750"
    by (simp add: numeral_eq_Suc counted_def)
  show ?thesis
    unfolding r using default_oriented_facts e f10 by simp
qed

subsection \<open>The two flags\<close>

lemma focusOnDoc_threw:
  assumes "focusOnDoc s = (Some e, s')"
  shows "isOrientingDoc s' = isOrientingDoc s \<and> isFadingDoc s' = isFadingDoc s"
proof (cases "currentDoc s")
  case None
  with assms show ?thesis by (simp add: focusOnDoc_def)
next
  case (Some d)
  define s1 where "s1 = s\<lparr>html := (html s)\<lparr>docFullImg_src := Some (imageSourceHD d),
                                          docBrowserPreviewImg_src := imageSourceBD d,
                                          docFullImg_opacity := Some 0,
                                          docOpaSlider := 0,
                                          docOpacity := Fin 0,
                                          docFull_display := ''block'',
                                          docFullPanel_display := ''none''\<rparr>\<rparr>"
  define s2 where "s2 = (if \<not> isNaN (vx (viewPosition d)) \<and> \<not> isNaN (qx (viewQuaternion d))
                     then s1\<lparr>travels := travels s1 @ [(viewPosition d, viewQuaternion d)]\<rparr>
                     else s1)"
  define s3 where "s3 = (if temporal s2 then s2\<lparr>timeChanges := timeChanges s2 @ [startDate d]\<rparr>
                      else s2)"
  have fl: "isOrientingDoc s2 = isOrientingDoc s" "isFadingDoc s2 = isFadingDoc s"
    "isOrientingDoc s3 = isOrientingDoc s" "isFadingDoc s3 = isFadingDoc s"
    by (simp_all add: s3_def s2_def s1_def)
  show ?thesis
  proof (cases "temporal s \<and> \<not> global_temporal s")
    case True
    then have "focusOnDoc s = (Some ReferenceError, s2)"
      using Some by (simp add: focusOnDoc_def Let_def s2_def s1_def)
    with assms fl show ?thesis by simp
  next
    case False
    then have eq: "focusOnDoc s =
       andThen (hideBillboards True s3)
          (\<lambda>s3. notifyChange False (s3\<lparr>isOrientingDoc := True, isFadingDoc := False\<rparr>))"
      using Some by (simp add: focusOnDoc_def s3_def s2_def s1_def Let_def)
    obtain e' s4 where h: "hideBillboards True s3 = (e', s4)"
      "isOrientingDoc s4 = isOrientingDoc s3" "isFadingDoc s4 = isFadingDoc s3"
      using hideBillboards_frame[of True s3] by blast
    show ?thesis
      using assms h fl unfolding eq
      by (cases e') (auto simp: andThen_simps notifyChange_def)
  qed
qed

lemma step_exclusive:
  assumes "\<not> (isOrientingDoc s \<and> isFadingDoc s)"
  shows "\<not> (isOrientingDoc (step c s) \<and> isFadingDoc (step c s))"
proof (cases c)
  case FocusOnDoc
  obtain e s' where f: "focusOnDoc s = (e, s')" by (cases "focusOnDoc s")
  show ?thesis
  proof (cases e)
    case None
    then show ?thesis using focusOnDoc_returned(2)[of s s'] f FocusOnDoc by simp
  next
    case (Some err)
    then show ?thesis using focusOnDoc_threw[of s err s'] f FocusOnDoc assms by simp
  qed
next
  case (Update dt r st)
  then show ?thesis using assms
    by (auto simp: update_def Let_def forEach_lookAt_state split: if_splits)
qed

lemma update_sets_fading:
  assumes "\<not> isFadingDoc t" "isFadingDoc (snd (update dt r c t))"
  shows "isOrientingDoc t \<and> \<not> isOrientingDoc (snd (update dt r c t))"
  using assms by (auto simp: update_def Let_def forEach_lookAt_state split: if_splits)

text \<open>
  Claim C10.  The orienting and the fading flag are never set together: from a state
  where neither is set, every sequence of \<open>focusOnDoc\<close> and \<open>update\<close> calls ends in a
  state where at most one of them is set.  A \<open>focusOnDoc\<close> that returns leaves the
  handler orienting and not fading, and an \<open>update\<close> that turns the fading flag on
  started from the orienting state and turns the orienting flag off.
\<close>

theorem orienting_fading_exclusive:
  assumes "\<not> isOrientingDoc s" and "\<not> isFadingDoc s"
  shows "\<not> (isOrientingDoc (run cs s) \<and> isFadingDoc (run cs s))
       \<and> (fst (focusOnDoc t) = None \<longrightarrow>
            isOrientingDoc (snd (focusOnDoc t)) \<and> \<not> isFadingDoc (snd (focusOnDoc t)))
       \<and> (\<not> isFadingDoc t \<and> isFadingDoc (snd (update dt r c t)) \<longrightarrow>
            isOrientingDoc t \<and> \<not> isOrientingDoc (snd (update dt r c t)))"
proof (intro conjI impI)
  have inv: "\<not> (isOrientingDoc (run cs x) \<and> isFadingDoc (run cs x))"
    if "\<not> (isOrientingDoc x \<and> isFadingDoc x)" for x
    using that
  proof (induction cs arbitrary: x)
    case Nil
    then show ?case by simp
  next
    case (Cons c cs)
    show ?case using Cons.IH[OF step_exclusive[OF Cons.prems]] by simp
  qed
  show "\<not> (isOrientingDoc (run cs s) \<and> isFadingDoc (run cs s))"
    using inv assms by blast
next
  assume "fst (focusOnDoc t) = None"
  then have "focusOnDoc t = (None, snd (focusOnDoc t))" by (simp add: prod_eq_iff)
  then show "isOrientingDoc (snd (focusOnDoc t))" "\<not> isFadingDoc (snd (focusOnDoc t))"
    using focusOnDoc_returned(1,2) by blast+
next
  assume a: "\<not> isFadingDoc t \<and> isFadingDoc (snd (update dt r c t))"
  then show "isOrientingDoc t" "\<not> isOrientingDoc (snd (update dt r c t))"
    using update_sets_fading[of t dt r c] by simp_all
qed

theorem orienting_fading_exclusive_witness:
  "\<not> isOrientingDoc loaded \<and> \<not> isFadingDoc loaded
   \<and> \<not> (isOrientingDoc (run [FocusOnDoc, Update (Fin 16) False 3, Update (Fin 16) False (- 1)] loaded)
        \<and> isFadingDoc (run [FocusOnDoc, Update (Fin 16) False 3, Update (Fin 16) False (- 1)] loaded))
   \<and> isFadingDoc (run [FocusOnDoc, Update (Fin 16) False 3, Update (Fin 16) False (- 1)] loaded)
   \<and> fst (focusOnDoc loaded) = None
   \<and> isOrientingDoc (snd (focusOnDoc loaded)) \<and> \<not> isFadingDoc (snd (focusOnDoc loaded))
   \<and> \<not> isFadingDoc oriented \<and> isFadingDoc (snd (update (Fin 16) False (- 1) oriented))
   \<and> isOrientingDoc oriented \<and> \<not> isOrientingDoc (snd (update (Fin 16) False (- 1) oriented))"
proof -
  have l: "\<not> isOrientingDoc loaded" "\<not> isFadingDoc loaded" by (simp_all add: loaded_eq)
  have o: "isOrientingDoc oriented" "\<not> isFadingDoc oriented"
    using focusOnDoc_returned(1,2)[OF oriented_eq] by simp_all
  have r: "run [FocusOnDoc, Update (Fin 16) False 3, Update (Fin 16) False (- 1)] loaded = fading"
    using update_travelling[OF o, of 3 "Fin 16" False] by (simp add: oriented_eq fading_def)
  show ?thesis
    using orienting_fading_exclusive [OF l,
        of "[FocusOnDoc, Update (Fin 16) False 3, Update (Fin 16) False (- 1)]" loaded "Fin 16" False 0]
      orienting_fading_exclusive [OF l, of "[]" oriented "Fin 16" False "- 1"]
      l o r fading_facts oriented_eq
    by (simp add: fading_def)
qed

section \<open>The browser window\<close>

text \<open>
  Claim C9.  \<open>toggleDocBrowserWindow\<close> leaves \<open>docBrowserWindowIsActive\<close> as it was.  It
  sets the display of the window from the flag, so a second call changes nothing more:
  the window does not alternate between shown and hidden.
\<close>

theorem toggleDocBrowserWindow_keeps_flag:
  "docBrowserWindowIsActive (toggleDocBrowserWindow s) = docBrowserWindowIsActive s
   \<and> docBrowserWindow_display (html (toggleDocBrowserWindow s))
       = (if docBrowserWindowIsActive s then ''block'' else ''none'')
   \<and> toggleDocBrowserWindow (toggleDocBrowserWindow s) = toggleDocBrowserWindow s"
  by (simp add: toggleDocBrowserWindow_def Let_def)


lemma array_get_nat:
  "array_get xs (Fin (real k)) = (if k < length xs then Some (xs ! k) else None)"
  by simp

lemma updateBrowser_Some:
  "currentDoc s = Some d \<Longrightarrow>
   updateBrowser s = (None, s\<lparr>html := (html s)\<lparr>docBrowserPreviewImg_src := imageSourceBD d,
                                    docBrowserMetaData := metaData d,
                                    docBrowserTitle := title d,
                                    docBrowserIndex := Some (index d)\<rparr>\<rparr>)"
  by (simp add: updateBrowser_def)

lemma loaded_indices:
  "\<forall>j<length (AllDocuments loaded). index (AllDocuments loaded ! j) = Fin (real j)"
  by (simp add: loaded_eq doc_a_def doc_b_def less_Suc_eq)

lemma second_eq:
  "nextDoc loaded = (None, second)"
  "second = loaded\<lparr>currentDoc := Some doc_b,
                   html := (html loaded)\<lparr>docBrowserPreviewImg_src := ''Vilo3D/Docs/b_small.jpg'',
                                         docBrowserMetaData := ''about B'',
                                         docBrowserTitle := ''Title B'',
                                         docBrowserIndex := Some (Fin 1)\<rparr>\<rparr>"
proof -
  have n: "nextDoc loaded = (None, loaded\<lparr>currentDoc := Some doc_b,
                   html := (html loaded)\<lparr>docBrowserPreviewImg_src := ''Vilo3D/Docs/b_small.jpg'',
                                         docBrowserMetaData := ''about B'',
                                         docBrowserTitle := ''Title B'',
                                         docBrowserIndex := Some (Fin 1)\<rparr>\<rparr>)"
    by (simp add: nextDoc_def loaded_eq updateBrowser_def doc_a_def doc_b_def)
  then show "second = loaded\<lparr>currentDoc := Some doc_b,
                   html := (html loaded)\<lparr>docBrowserPreviewImg_src := ''Vilo3D/Docs/b_small.jpg'',
                                         docBrowserMetaData := ''about B'',
                                         docBrowserTitle := ''Title B'',
                                         docBrowserIndex := Some (Fin 1)\<rparr>\<rparr>"
    by (simp add: second_def)
  with n show "nextDoc loaded = (None, second)" by simp
qed

text \<open>
  Claim C3.  Let every document's \<open>index\<close> be its position in \<open>AllDocuments\<close>, and the
  current document be the one at position \<open>i\<close>.  \<open>nextDoc\<close> makes the document at
  position \<open>i + 1\<close> current and shows it in the browser when there is one, and changes
  nothing otherwise; \<open>previousDoc\<close> does the same with position \<open>i - 1\<close>, and changes
  nothing at position 0.
\<close>

theorem next_previous_by_one:
  assumes "i < length (AllDocuments s)"
    and "currentDoc s = Some (AllDocuments s ! i)"
    and "\<forall>j<length (AllDocuments s). index (AllDocuments s ! j) = Fin (real j)"
  shows "(i + 1 < length (AllDocuments s) \<longrightarrow>
            fst (nextDoc s) = None
          \<and> currentDoc (snd (nextDoc s)) = Some (AllDocuments s ! (i + 1))
          \<and> docBrowserTitle (html (snd (nextDoc s))) = title (AllDocuments s ! (i + 1))
          \<and> docBrowserMetaData (html (snd (nextDoc s))) = metaData (AllDocuments s ! (i + 1))
          \<and> docBrowserPreviewImg_src (html (snd (nextDoc s)))
              = imageSourceBD (AllDocuments s ! (i + 1))
          \<and> docBrowserIndex (html (snd (nextDoc s))) = Some (Fin (real (i + 1)))
          \<and> AllDocuments (snd (nextDoc s)) = AllDocuments s)
       \<and> (\<not> i + 1 < length (AllDocuments s) \<longrightarrow> nextDoc s = (None, s))
       \<and> (i \<noteq> 0 \<longrightarrow>
            fst (previousDoc s) = None
          \<and> currentDoc (snd (previousDoc s)) = Some (AllDocuments s ! (i - 1))
          \<and> docBrowserTitle (html (snd (previousDoc s))) = title (AllDocuments s ! (i - 1))
          \<and> docBrowserMetaData (html (snd (previousDoc s)))
              = metaData (AllDocuments s ! (i - 1))
          \<and> docBrowserPreviewImg_src (html (snd (previousDoc s)))
              = imageSourceBD (AllDocuments s ! (i - 1))
          \<and> docBrowserIndex (html (snd (previousDoc s))) = Some (Fin (real (i - 1)))
          \<and> AllDocuments (snd (previousDoc s)) = AllDocuments s)
       \<and> (i = 0 \<longrightarrow> previousDoc s = (None, s))"
proof -
  let ?docs = "AllDocuments s"
  have idx: "index (?docs ! i) = Fin (real i)" using assms(1,3) by simp
  have nxt: "num_add (index (?docs ! i)) 1 = Fin (real (i + 1))"
    unfolding idx by simp
  have ge: "num_ge (Fin (real k)) n = (\<not> k < n)" for k n
    by (simp only: num_ge.simps of_nat_le_iff not_less)
  have N: "nextDoc s = updateBrowser (s\<lparr>currentDoc := Some (?docs ! (i + 1))\<rparr>)"
    if "i + 1 < length ?docs"
    unfolding nextDoc_def using assms(2) that nxt ge
    by (simp only: option.case array_get_nat if_True if_False simp_thms)
  have N': "nextDoc s = (None, s)" if "\<not> i + 1 < length ?docs"
    unfolding nextDoc_def using assms(2) that nxt ge
    by (simp only: option.case if_True if_False simp_thms)
  have P: "previousDoc s = updateBrowser (s\<lparr>currentDoc := Some (?docs ! (i - 1))\<rparr>)"
    if "i \<noteq> 0"
  proof -
    have prv: "num_add (index (?docs ! i)) (- 1) = Fin (real (i - 1))"
      unfolding idx using that by simp
    have nz: "index (?docs ! i) \<noteq> Fin 0" unfolding idx using that by simp
    have lt: "i - 1 < length ?docs" using assms(1) by simp
    show ?thesis
      unfolding previousDoc_def using assms(2) nz prv lt
      by (simp only: option.case array_get_nat if_True if_False simp_thms)
  qed
  have P': "previousDoc s = (None, s)" if "i = 0"
    unfolding previousDoc_def using assms(2) idx that by simp
  have i1: "index (?docs ! (i + 1)) = Fin (real (i + 1))" if "i + 1 < length ?docs"
    using that assms(3) by blast
  have i0: "index (?docs ! (i - 1)) = Fin (real (i - 1))"
    using assms(1,3) by simp
  show ?thesis
  proof (intro conjI impI)
    assume a: "i + 1 < length ?docs"
    show "fst (nextDoc s) = None"
      "currentDoc (snd (nextDoc s)) = Some (?docs ! (i + 1))"
      "docBrowserTitle (html (snd (nextDoc s))) = title (?docs ! (i + 1))"
      "docBrowserMetaData (html (snd (nextDoc s))) = metaData (?docs ! (i + 1))"
      "docBrowserPreviewImg_src (html (snd (nextDoc s))) = imageSourceBD (?docs ! (i + 1))"
      "docBrowserIndex (html (snd (nextDoc s))) = Some (Fin (real (i + 1)))"
      "AllDocuments (snd (nextDoc s)) = ?docs"
      unfolding N[OF a] using i1[OF a] by (simp_all add: updateBrowser_def)
  next
    assume "\<not> i + 1 < length ?docs"
    then show "nextDoc s = (None, s)" by (rule N')
  next
    assume a: "i \<noteq> 0"
    show "fst (previousDoc s) = None"
      "currentDoc (snd (previousDoc s)) = Some (?docs ! (i - 1))"
      "docBrowserTitle (html (snd (previousDoc s))) = title (?docs ! (i - 1))"
      "docBrowserMetaData (html (snd (previousDoc s))) = metaData (?docs ! (i - 1))"
      "docBrowserPreviewImg_src (html (snd (previousDoc s))) = imageSourceBD (?docs ! (i - 1))"
      "docBrowserIndex (html (snd (previousDoc s))) = Some (Fin (real (i - 1)))"
      "AllDocuments (snd (previousDoc s)) = ?docs"
      unfolding P[OF a] using i0 by (simp_all add: updateBrowser_def)
  next
    assume "i = 0"
    then show "previousDoc s = (None, s)" by (rule P')
  qed
qed

theorem next_previous_by_one_witness:
  "0 < length (AllDocuments loaded) \<and> currentDoc loaded = Some (AllDocuments loaded ! 0)
   \<and> index (AllDocuments loaded ! 0) = Fin 0 \<and> index (AllDocuments loaded ! 1) = Fin 1
   \<and> length (AllDocuments loaded) = 2
   \<and> currentDoc (snd (nextDoc loaded)) = Some doc_b
   \<and> docBrowserTitle (html (snd (nextDoc loaded))) = ''Title B''
   \<and> previousDoc loaded = (None, loaded)
   \<and> currentDoc second = Some (AllDocuments second ! 1)
   \<and> nextDoc second = (None, second)
   \<and> currentDoc (snd (previousDoc second)) = Some doc_a
   \<and> docBrowserIndex (html (snd (previousDoc second))) = Some (Fin 0)"
  using next_previous_by_one [of 0 loaded, OF _ _ loaded_indices]
    next_previous_by_one [of 1 second] loaded_indices
  by (simp add: second_eq(2) loaded_eq doc_a_def doc_b_def)


section \<open>Billboards\<close>

lemma set_scene_add: "set (scene_add x cs) = insert x (set cs)"
proof (rule set_eqI)
  fix y
  show "y \<in> set (scene_add x cs) \<longleftrightarrow> y \<in> insert x (set cs)"
  proof (cases "y = x")
    case True
    then show ?thesis by (simp add: scene_add_def)
  next
    case False
    then show ?thesis by (simp add: scene_add_def)
  qed
qed

lemma distinct_scene_add: "distinct cs \<Longrightarrow> distinct (scene_add x cs)"
  by (auto simp: scene_add_def)

lemma set_scene_remove: "distinct cs \<Longrightarrow> set (scene_remove x cs) = set cs - {x}"
  by (simp add: scene_remove_def)

lemma distinct_scene_remove: "distinct cs \<Longrightarrow> distinct (scene_remove x cs)"
  by (simp add: scene_remove_def)

lemma set_add_mesh: "set (add_mesh m cs) = set cs \<union> mesh_id ` set_option m"
  by (cases m) (simp_all add: add_mesh_def set_scene_add)

lemma distinct_add_mesh: "distinct cs \<Longrightarrow> distinct (add_mesh m cs)"
  by (cases m) (simp_all add: add_mesh_def distinct_scene_add)

lemma set_remove_mesh: "distinct cs \<Longrightarrow> set (remove_mesh m cs) = set cs - mesh_id ` set_option m"
  by (cases m) (simp_all add: remove_mesh_def set_scene_remove)

lemma distinct_remove_mesh: "distinct cs \<Longrightarrow> distinct (remove_mesh m cs)"
  by (cases m) (simp_all add: remove_mesh_def distinct_scene_remove)

lemma built_not_null: "billboard_built d \<Longrightarrow> useBillboard d \<Longrightarrow> null_mesh d = None"
  by (simp add: billboard_built_def null_mesh_def)

lemma billboards_Nil: "billboards [] = {}"
  by (simp add: billboards_def)

lemma billboards_Cons:
  "billboards (d # ds) = (if useBillboard d then mesh_ids d else {}) \<union> billboards ds"
  by (auto simp: billboards_def)

lemma forEach_show_built:
  assumes "\<forall>d\<in>set xs. billboard_built d"
  shows "\<exists>cs. forEach show_billboard xs s = (None, s\<lparr>scene := cs\<rparr>)
           \<and> set cs = set (scene s) \<union> billboards xs
           \<and> (distinct (scene s) \<longrightarrow> distinct cs)"
  using assms
proof (induction xs arbitrary: s)
  case Nil
  have "forEach show_billboard [] s = (None, s\<lparr>scene := scene s\<rparr>)" by simp
  moreover have "billboards [] = {}" by (simp add: billboards_def)
  ultimately show ?case by (intro exI[of _ "scene s"]) simp
next
  case (Cons x xs)
  show ?case
  proof (cases "useBillboard x")
    case False
    then have "forEach show_billboard (x # xs) s = forEach show_billboard xs s"
      by (simp add: show_billboard_def andThen_simps)
    then show ?thesis using Cons.IH[of s] Cons.prems False by (simp add: billboards_Cons)
  next
    case True
    define c1 where "c1 = add_mesh (billboardGeometryFrame x)
                         (add_mesh (billboardGeometry x) (scene s))"
    define s1 where "s1 = s\<lparr>scene := c1\<rparr>"
    have "null_mesh x = None" using Cons.prems True by (simp add: built_not_null)
    then have e: "forEach show_billboard (x # xs) s = forEach show_billboard xs s1"
      using True by (simp add: show_billboard_def andThen_simps s1_def c1_def)
    obtain cs where cs: "forEach show_billboard xs s1 = (None, s1\<lparr>scene := cs\<rparr>)"
        "set cs = set (scene s1) \<union> billboards xs" "distinct (scene s1) \<longrightarrow> distinct cs"
      using Cons.IH[of s1] Cons.prems by auto
    have c1: "set c1 = set (scene s) \<union> mesh_ids x" "distinct (scene s) \<longrightarrow> distinct c1"
      unfolding c1_def by (auto simp: set_add_mesh mesh_ids_def distinct_add_mesh)
    have "forEach show_billboard (x # xs) s = (None, s\<lparr>scene := cs\<rparr>)"
      using e cs(1) by (simp add: s1_def)
    moreover have "set cs = set (scene s) \<union> billboards (x # xs)"
      using cs(2) c1(1) True by (auto simp: s1_def billboards_Cons)
    moreover have "distinct (scene s) \<longrightarrow> distinct cs"
      using cs(3) c1(2) by (simp add: s1_def)
    ultimately show ?thesis by blast
  qed
qed

lemma forEach_hide_built:
  assumes "\<forall>d\<in>set xs. billboard_built d" and "distinct (scene s)"
  shows "\<exists>cs. forEach hide_billboard xs s = (None, s\<lparr>scene := cs\<rparr>)
           \<and> set cs = set (scene s) - billboards xs \<and> distinct cs"
  using assms
proof (induction xs arbitrary: s)
  case Nil
  have "forEach hide_billboard [] s = (None, s\<lparr>scene := scene s\<rparr>)" by simp
  moreover have "billboards [] = {}" by (simp add: billboards_def)
  ultimately show ?case using Nil by (intro exI[of _ "scene s"]) simp
next
  case (Cons x xs)
  show ?case
  proof (cases "useBillboard x")
    case False
    then have "forEach hide_billboard (x # xs) s = forEach hide_billboard xs s"
      by (simp add: hide_billboard_def andThen_simps)
    then show ?thesis using Cons.IH[of s] Cons.prems False by (simp add: billboards_Cons)
  next
    case True
    define c1 where "c1 = remove_mesh (billboardGeometryFrame x)
                         (remove_mesh (billboardGeometry x) (scene s))"
    define s1 where "s1 = s\<lparr>scene := c1\<rparr>"
    have "null_mesh x = None" using Cons.prems True by (simp add: built_not_null)
    then have e: "forEach hide_billboard (x # xs) s = forEach hide_billboard xs s1"
      using True by (simp add: hide_billboard_def andThen_simps s1_def c1_def)
    have c1: "set c1 = set (scene s) - mesh_ids x" "distinct c1"
      unfolding c1_def using Cons.prems(2)
      by (auto simp: set_remove_mesh mesh_ids_def distinct_remove_mesh)
    obtain cs where cs: "forEach hide_billboard xs s1 = (None, s1\<lparr>scene := cs\<rparr>)"
        "set cs = set (scene s1) - billboards xs" "distinct cs"
      using Cons.IH[of s1] Cons.prems c1(2) by (auto simp: s1_def)
    have "forEach hide_billboard (x # xs) s = (None, s\<lparr>scene := cs\<rparr>)"
      using e cs(1) by (simp add: s1_def)
    moreover have "set cs = set (scene s) - billboards (x # xs)"
      using cs(2) c1(1) True by (auto simp: s1_def billboards_Cons)
    ultimately show ?thesis using cs(3) by blast
  qed
qed


lemma showBillboards_built:
  assumes "\<forall>d\<in>set (AllDocuments s). billboard_built d"
  shows "\<exists>cs. showBillboards True s =
             (None, s\<lparr>html := (html s)\<lparr>docBrowserToggleBillboard := ''Masquer Billboards''\<rparr>,
                      scene := cs, notified := notified s @ [True]\<rparr>)
           \<and> set cs = set (scene s) \<union> billboards (AllDocuments s)
           \<and> (distinct (scene s) \<longrightarrow> distinct cs)"
proof -
  define s0 where
    "s0 = s\<lparr>html := (html s)\<lparr>docBrowserToggleBillboard := ''Masquer Billboards''\<rparr>\<rparr>"
  obtain cs where cs: "forEach show_billboard (AllDocuments s) s0 = (None, s0\<lparr>scene := cs\<rparr>)"
      "set cs = set (scene s0) \<union> billboards (AllDocuments s)"
      "distinct (scene s0) \<longrightarrow> distinct cs"
    using forEach_show_built[OF assms, of s0] by blast
  have "showBillboards True s =
             (None, s\<lparr>html := (html s)\<lparr>docBrowserToggleBillboard := ''Masquer Billboards''\<rparr>,
                      scene := cs, notified := notified s @ [True]\<rparr>)"
    using cs(1) by (simp add: showBillboards_def andThen_simps notifyChange_def s0_def)
  then show ?thesis using cs(2,3) by (auto simp: s0_def)
qed

lemma hideBillboards_built:
  assumes "\<forall>d\<in>set (AllDocuments s). billboard_built d" and "distinct (scene s)"
  shows "\<exists>cs. hideBillboards True s =
             (None, s\<lparr>html := (html s)\<lparr>docBrowserToggleBillboard := ''Afficher Billboards''\<rparr>,
                      scene := cs, notified := notified s @ [True]\<rparr>)
           \<and> set cs = set (scene s) - billboards (AllDocuments s) \<and> distinct cs"
proof -
  define s0 where
    "s0 = s\<lparr>html := (html s)\<lparr>docBrowserToggleBillboard := ''Afficher Billboards''\<rparr>\<rparr>"
  have d: "distinct (scene s0)" using assms(2) by (simp add: s0_def)
  obtain cs where cs: "forEach hide_billboard (AllDocuments s) s0 = (None, s0\<lparr>scene := cs\<rparr>)"
      "set cs = set (scene s0) - billboards (AllDocuments s)" "distinct cs"
    using forEach_hide_built[OF assms(1) d] by blast
  have "hideBillboards True s =
             (None, s\<lparr>html := (html s)\<lparr>docBrowserToggleBillboard := ''Afficher Billboards''\<rparr>,
                      scene := cs, notified := notified s @ [True]\<rparr>)"
    using cs(1) by (simp add: hideBillboards_def andThen_simps notifyChange_def s0_def)
  then show ?thesis using cs(2,3) by (auto simp: s0_def)
qed

lemma built_planes:
  assumes "billboard_built d" "useBillboard d"
  shows "\<exists>p f. billboardGeometry d = Some p \<and> billboardGeometryFrame d = Some f
           \<and> mesh_ids d = {mesh_id p, mesh_id f}"
  using assms by (auto simp: billboard_built_def mesh_ids_def)

lemma built_no_planes: "billboard_built d \<Longrightarrow> \<not> useBillboard d \<Longrightarrow> mesh_ids d = {}"
  by (simp add: billboard_built_def mesh_ids_def)

lemma mesh_ids_in_billboards:
  "d \<in> set docs \<Longrightarrow> useBillboard d \<Longrightarrow> mesh_ids d \<subseteq> billboards docs"
  by (auto simp: billboards_def)

lemma loaded_built: "\<forall>d\<in>set (AllDocuments loaded). billboard_built d"
  by (simp add: loaded_eq billboard_built_def doc_a_def doc_b_def)

text \<open>
  Claim C5.  Billboards are shown and hidden together.  For documents as the constructor
  builds them and a scene that holds no object twice: after \<open>showBillboards(true)\<close>
  the image plane and the frame of every document that uses a billboard are in the
  scene; after \<open>hideBillboards(true)\<close> no plane of any document is; \<open>toggleBillboards\<close>
  flips \<open>billboardsAreActive\<close> and hides when it was set, shows when it was not.  The
  scene only ever gains planes of documents that use a billboard, and a document that
  does not has no plane to add.
\<close>

theorem billboards_as_a_group:
  assumes "\<forall>d\<in>set (AllDocuments s). billboard_built d" and "distinct (scene s)"
  shows "fst (showBillboards True s) = None
       \<and> AllDocuments (snd (showBillboards True s)) = AllDocuments s
       \<and> (\<forall>d\<in>set (AllDocuments s). useBillboard d \<longrightarrow>
            (\<exists>p f. billboardGeometry d = Some p \<and> billboardGeometryFrame d = Some f
               \<and> mesh_id p \<in> set (scene (snd (showBillboards True s)))
               \<and> mesh_id f \<in> set (scene (snd (showBillboards True s)))))
       \<and> set (scene (snd (showBillboards True s))) = set (scene s) \<union> billboards (AllDocuments s)
       \<and> fst (hideBillboards True s) = None
       \<and> AllDocuments (snd (hideBillboards True s)) = AllDocuments s
       \<and> (\<forall>d\<in>set (AllDocuments s).
            mesh_ids d \<inter> set (scene (snd (hideBillboards True s))) = {})
       \<and> set (scene (snd (hideBillboards True s))) = set (scene s) - billboards (AllDocuments s)
       \<and> fst (toggleBillboards s) = None
       \<and> billboardsAreActive (snd (toggleBillboards s)) = (\<not> billboardsAreActive s)
       \<and> set (scene (snd (toggleBillboards s)))
           = (if billboardsAreActive s then set (scene s) - billboards (AllDocuments s)
              else set (scene s) \<union> billboards (AllDocuments s))
       \<and> (\<forall>d\<in>set (AllDocuments s). \<not> useBillboard d \<longrightarrow> mesh_ids d = {})"
proof -
  let ?docs = "AllDocuments s"
  obtain cs where sh: "showBillboards True s =
             (None, s\<lparr>html := (html s)\<lparr>docBrowserToggleBillboard := ''Masquer Billboards''\<rparr>,
                      scene := cs, notified := notified s @ [True]\<rparr>)"
      "set cs = set (scene s) \<union> billboards ?docs"
    using showBillboards_built[OF assms(1)] by blast
  obtain hs where hi: "hideBillboards True s =
             (None, s\<lparr>html := (html s)\<lparr>docBrowserToggleBillboard := ''Afficher Billboards''\<rparr>,
                      scene := hs, notified := notified s @ [True]\<rparr>)"
      "set hs = set (scene s) - billboards ?docs"
    using hideBillboards_built[OF assms] by blast
  have shown: "\<exists>p f. billboardGeometry d = Some p \<and> billboardGeometryFrame d = Some f
               \<and> mesh_id p \<in> set cs \<and> mesh_id f \<in> set cs"
    if h: "d \<in> set ?docs" "useBillboard d" for d
  proof -
    obtain p f where pf: "billboardGeometry d = Some p" "billboardGeometryFrame d = Some f"
        "mesh_ids d = {mesh_id p, mesh_id f}"
      using built_planes[of d] assms(1) h by blast
    have "mesh_ids d \<subseteq> set cs"
      using mesh_ids_in_billboards[OF h] sh(2) by blast
    then show ?thesis using pf by simp
  qed
  have hidden: "mesh_ids d \<inter> set hs = {}" if "d \<in> set ?docs" for d
  proof (cases "useBillboard d")
    case True
    then show ?thesis using mesh_ids_in_billboards[OF that True] hi(2) by blast
  next
    case False
    then show ?thesis using built_no_planes[of d] assms(1) that by simp
  qed
  have tg: "fst (toggleBillboards s) = None
       \<and> billboardsAreActive (snd (toggleBillboards s)) = (\<not> billboardsAreActive s)
       \<and> set (scene (snd (toggleBillboards s)))
           = (if billboardsAreActive s then set (scene s) - billboards ?docs
              else set (scene s) \<union> billboards ?docs)"
  proof (cases "billboardsAreActive s")
    case True
    define s1 where "s1 = s\<lparr>billboardsAreActive := False\<rparr>"
    obtain ts where "hideBillboards True s1 =
             (None, s1\<lparr>html := (html s1)\<lparr>docBrowserToggleBillboard := ''Afficher Billboards''\<rparr>,
                      scene := ts, notified := notified s1 @ [True]\<rparr>)"
      "set ts = set (scene s1) - billboards (AllDocuments s1)"
      using hideBillboards_built[of s1] assms by (auto simp: s1_def)
    then show ?thesis using True by (simp add: toggleBillboards_def s1_def)
  next
    case False
    define s1 where "s1 = s\<lparr>billboardsAreActive := True\<rparr>"
    obtain ts where "showBillboards True s1 =
             (None, s1\<lparr>html := (html s1)\<lparr>docBrowserToggleBillboard := ''Masquer Billboards''\<rparr>,
                      scene := ts, notified := notified s1 @ [True]\<rparr>)"
      "set ts = set (scene s1) \<union> billboards (AllDocuments s1)"
      using showBillboards_built[of s1] assms by (auto simp: s1_def)
    then show ?thesis using False by (simp add: toggleBillboards_def s1_def)
  qed
  have none: "\<forall>d\<in>set ?docs. \<not> useBillboard d \<longrightarrow> mesh_ids d = {}"
    using built_no_planes assms(1) by blast
  show ?thesis
    unfolding sh(1) hi(1) using shown hidden sh(2) hi(2) tg none by simp
qed

theorem billboards_as_a_group_witness:
  "billboard_built doc_a \<and> billboard_built doc_b \<and> AllDocuments loaded = [doc_a, doc_b]
   \<and> distinct (scene loaded) \<and> distinct (scene (loaded\<lparr>scene := [0, 7, 1]\<rparr>))
   \<and> useBillboard doc_a \<and> \<not> useBillboard doc_b
   \<and> set (scene (snd (showBillboards True loaded))) = {0, 1}
   \<and> set (scene (snd (hideBillboards True (loaded\<lparr>scene := [0, 7, 1]\<rparr>)))) = {7}
   \<and> billboardsAreActive (snd (toggleBillboards loaded))
   \<and> set (scene (snd (toggleBillboards loaded))) = {0, 1}
   \<and> mesh_ids doc_b = {}"
  using billboards_as_a_group [of loaded] billboards_as_a_group [of "loaded\<lparr>scene := [0, 7, 1]\<rparr>"]
    loaded_built
  by (simp add: loaded_eq billboard_built_def billboards_Nil billboards_Cons mesh_ids_def
      doc_a_def doc_b_def insert_commute)


section \<open>The constructor of a document\<close>

lemma Document_built: "billboard_built (fst (Document t i did srcHD srcBD bpos vpos vquat date meta k))"
  by (simp add: Document_def createBillboard_def billboard_built_def Let_def)

lemma Document_a:
  "Document ''Title A'' (Fin 0) (Fin 10) ''Vilo3D/Docs/a.jpg'' ''Vilo3D/Docs/a_small.jpg''
     \<lparr>vx = Fin 1, vy = Fin 2, vz = Fin 3\<rparr> \<lparr>vx = Fin 1, vy = Fin 2, vz = Fin 3\<rparr>
     \<lparr>qx = Fin 0, qy = Fin 0, qz = Fin 0, qw = Fin 1\<rparr> (Moment ''1900-01-01'') ''about A'' 0
   = (doc_a, 2)"
  by (simp add: Document_def createBillboard_def doc_a_def Let_def)

lemma Document_b:
  "Document ''Title B'' (Fin 1) (Fin 11) ''Vilo3D/Docs/b.jpg'' ''Vilo3D/Docs/b_small.jpg''
     \<lparr>vx = NaN, vy = NaN, vz = NaN\<rparr> \<lparr>vx = NaN, vy = NaN, vz = NaN\<rparr>
     \<lparr>qx = NaN, qy = NaN, qz = NaN, qw = NaN\<rparr> (Moment ''1950-01-01'') ''about B'' 2
   = (doc_b, 2)"
  by (simp add: Document_def createBillboard_def doc_b_def Let_def)

text \<open>
  Claim C7.  The billboard position of a document is optional, and absent when a
  coordinate is NaN: \<open>useBillboard\<close> is set exactly when none of the three coordinates
  of the position given to the constructor is NaN; the image plane and the frame are
  created exactly then, both at that position.
\<close>

theorem useBillboard_iff_position:
  assumes "Document docTitle docIndex docID srcHD srcBD bpos vpos vquat date meta k = (d, k')"
  shows "useBillboard d = (\<not> isNaN (vx bpos) \<and> \<not> isNaN (vy bpos) \<and> \<not> isNaN (vz bpos))
       \<and> billboardPosition d = bpos
       \<and> (useBillboard d \<longrightarrow>
            (\<exists>p f. billboardGeometry d = Some p \<and> billboardGeometryFrame d = Some f
               \<and> position p = bpos \<and> position f = bpos \<and> mesh_id p \<noteq> mesh_id f))
       \<and> (\<not> useBillboard d \<longrightarrow>
            billboardGeometry d = None \<and> billboardGeometryFrame d = None)"
proof (cases "\<not> isNaN (vx bpos) \<and> \<not> isNaN (vy bpos) \<and> \<not> isNaN (vz bpos)")
  case True
  then have "d = createBillboard srcBD bpos k
      \<lparr>index = docIndex, doc_ID = docID, imageSourceHD = srcHD, imageSourceBD = srcBD,
       metaData = meta, startDate = date, title = docTitle, useBillboard = True,
       billboardPosition = bpos, viewPosition = vpos, viewQuaternion = vquat,
       billboardGeometry = None, billboardGeometryFrame = None, docBillboardData = None\<rparr>"
    using assms by (simp add: Document_def Let_def)
  then show ?thesis using True by (simp add: createBillboard_def Let_def)
next
  case False
  then have "d =
      \<lparr>index = docIndex, doc_ID = docID, imageSourceHD = srcHD, imageSourceBD = srcBD,
       metaData = meta, startDate = date, title = docTitle, useBillboard = False,
       billboardPosition = bpos, viewPosition = vpos, viewQuaternion = vquat,
       billboardGeometry = None, billboardGeometryFrame = None, docBillboardData = None\<rparr>"
    using assms by (auto simp: Document_def Let_def)
  then show ?thesis using False by simp
qed

theorem useBillboard_iff_position_witness:
  "Document ''Title A'' (Fin 0) (Fin 10) ''Vilo3D/Docs/a.jpg'' ''Vilo3D/Docs/a_small.jpg''
     \<lparr>vx = Fin 1, vy = Fin 2, vz = Fin 3\<rparr> \<lparr>vx = Fin 1, vy = Fin 2, vz = Fin 3\<rparr>
     \<lparr>qx = Fin 0, qy = Fin 0, qz = Fin 0, qw = Fin 1\<rparr> (Moment ''1900-01-01'') ''about A'' 0
   = (doc_a, 2)
   \<and> useBillboard doc_a
   \<and> (\<exists>p f. billboardGeometry doc_a = Some p \<and> billboardGeometryFrame doc_a = Some f
         \<and> position p = \<lparr>vx = Fin 1, vy = Fin 2, vz = Fin 3\<rparr>
         \<and> position f = \<lparr>vx = Fin 1, vy = Fin 2, vz = Fin 3\<rparr>)
   \<and> Document ''Title B'' (Fin 1) (Fin 11) ''Vilo3D/Docs/b.jpg'' ''Vilo3D/Docs/b_small.jpg''
     \<lparr>vx = NaN, vy = NaN, vz = NaN\<rparr> \<lparr>vx = NaN, vy = NaN, vz = NaN\<rparr>
     \<lparr>qx = NaN, qy = NaN, qz = NaN, qw = NaN\<rparr> (Moment ''1950-01-01'') ''about B'' 2
   = (doc_b, 2)
   \<and> \<not> useBillboard doc_b
   \<and> billboardGeometry doc_b = None \<and> billboardGeometryFrame doc_b = None"
  using useBillboard_iff_position [OF Document_a] useBillboard_iff_position [OF Document_b]
    Document_a Document_b
  by auto

section \<open>Requesting the oriented view\<close>

text \<open>The sample handlers with the billboards shown, evaluated.\<close>

lemma shown_eq: "toggleBillboards second = (None, shown)"
  "shown = second\<lparr>billboardsAreActive := True,
                  html := (html second)\<lparr>docBrowserToggleBillboard := ''Masquer Billboards''\<rparr>,
                  scene := [0, 1], notified := [True, True]\<rparr>"
proof -
  have n: "toggleBillboards second = (None, second\<lparr>billboardsAreActive := True,
                  html := (html second)\<lparr>docBrowserToggleBillboard := ''Masquer Billboards''\<rparr>,
                  scene := [0, 1], notified := [True, True]\<rparr>)"
    by (simp add: toggleBillboards_def showBillboards_def second_eq(2) loaded_eq andThen_simps
        show_billboard_def null_mesh_def add_mesh_def scene_add_def notifyChange_def
        doc_a_def doc_b_def)
  then show "shown = second\<lparr>billboardsAreActive := True,
                  html := (html second)\<lparr>docBrowserToggleBillboard := ''Masquer Billboards''\<rparr>,
                  scene := [0, 1], notified := [True, True]\<rparr>"
    by (simp add: shown_def)
  with n show "toggleBillboards second = (None, shown)" by simp
qed

lemma temporal_loaded:
  "initialize parse_cell catalogue (DocumentsHandler (sample_options\<lparr>opt_temporal := True\<rparr>) sample_page)
     = (None, loaded\<lparr>temporal := True\<rparr>)"
  by (simp add: loaded_eq initialize_def initialize_loop.simps len_cat DocumentsHandler_def
      sample_options_def sample_page_def Let_def
      new_a new_b andThen_simps updateBrowser_def hideBillboards_def hide_billboard_def
      null_mesh_def notifyChange_def remove_mesh_def scene_remove_def doc_a_def doc_b_def)

lemma temporal_shown_eq:
  "temporal_shown = loaded\<lparr>temporal := True, billboardsAreActive := True,
                  html := (html loaded)\<lparr>docBrowserToggleBillboard := ''Masquer Billboards''\<rparr>,
                  scene := [0, 1], notified := [True, True]\<rparr>"
  by (simp add: temporal_shown_def temporal_loaded toggleBillboards_def showBillboards_def loaded_eq andThen_simps
        show_billboard_def null_mesh_def add_mesh_def scene_add_def notifyChange_def
        doc_a_def doc_b_def)

lemma focusOnDoc_currentDoc: "currentDoc (snd (focusOnDoc s)) = currentDoc s"
proof (cases "currentDoc s")
  case None
  then show ?thesis by (simp add: focusOnDoc_def)
next
  case (Some d)
  define s1 where "s1 = s\<lparr>html := (html s)\<lparr>docFullImg_src := Some (imageSourceHD d),
                                          docBrowserPreviewImg_src := imageSourceBD d,
                                          docFullImg_opacity := Some 0,
                                          docOpaSlider := 0,
                                          docOpacity := Fin 0,
                                          docFull_display := ''block'',
                                          docFullPanel_display := ''none''\<rparr>\<rparr>"
  define s2 where "s2 = (if \<not> isNaN (vx (viewPosition d)) \<and> \<not> isNaN (qx (viewQuaternion d))
                     then s1\<lparr>travels := travels s1 @ [(viewPosition d, viewQuaternion d)]\<rparr>
                     else s1)"
  define s3 where "s3 = (if temporal s2 then s2\<lparr>timeChanges := timeChanges s2 @ [startDate d]\<rparr>
                      else s2)"
  have c: "currentDoc s2 = currentDoc s" "currentDoc s3 = currentDoc s"
    by (simp_all add: s3_def s2_def s1_def)
  show ?thesis
  proof (cases "temporal s \<and> \<not> global_temporal s")
    case True
    then have "focusOnDoc s = (Some ReferenceError, s2)"
      using Some by (simp add: focusOnDoc_def Let_def s2_def s1_def)
    with c show ?thesis by simp
  next
    case False
    then have eq: "focusOnDoc s =
       andThen (hideBillboards True s3)
          (\<lambda>s3. notifyChange False (s3\<lparr>isOrientingDoc := True, isFadingDoc := False\<rparr>))"
      using Some by (simp add: focusOnDoc_def s3_def s2_def s1_def Let_def)
    obtain e' s4 where h: "hideBillboards True s3 = (e', s4)" "currentDoc s4 = currentDoc s3"
      using hideBillboards_frame[of True s3] by blast
    show ?thesis
      using h c unfolding eq by (cases e') (auto simp: andThen_simps notifyChange_def)
  qed
qed

text \<open>
  What \<open>focusOnDoc\<close> does with a current document \<open>d\<close>: the travel is requested exactly
  when the pose is valid, and the full image is shown at opacity 0.  When the call does
  not throw for the temporal option, with documents as the constructor builds them and
  a scene that holds no object twice, it returns with the handler orienting and the
  billboards out of the scene.
\<close>

lemma focusOnDoc_effects:
  assumes "currentDoc s = Some d"
  shows "travels (snd (focusOnDoc s))
           = (if \<not> isNaN (vx (viewPosition d)) \<and> \<not> isNaN (qx (viewQuaternion d))
              then travels s @ [(viewPosition d, viewQuaternion d)] else travels s)
       \<and> docFullImg_src (html (snd (focusOnDoc s))) = Some (imageSourceHD d)
       \<and> docFullImg_opacity (html (snd (focusOnDoc s))) = Some 0
       \<and> docFull_display (html (snd (focusOnDoc s))) = ''block''
       \<and> ((temporal s \<longrightarrow> global_temporal s)
            \<and> (\<forall>x\<in>set (AllDocuments s). billboard_built x) \<and> distinct (scene s) \<longrightarrow>
              fst (focusOnDoc s) = None
            \<and> isOrientingDoc (snd (focusOnDoc s)) \<and> \<not> isFadingDoc (snd (focusOnDoc s))
            \<and> set (scene (snd (focusOnDoc s))) = set (scene s) - billboards (AllDocuments s)
            \<and> (\<forall>x\<in>set (AllDocuments s). mesh_ids x \<inter> set (scene (snd (focusOnDoc s))) = {}))"
proof -
  define s1 where "s1 = s\<lparr>html := (html s)\<lparr>docFullImg_src := Some (imageSourceHD d),
                                          docBrowserPreviewImg_src := imageSourceBD d,
                                          docFullImg_opacity := Some 0,
                                          docOpaSlider := 0,
                                          docOpacity := Fin 0,
                                          docFull_display := ''block'',
                                          docFullPanel_display := ''none''\<rparr>\<rparr>"
  define s2 where "s2 = (if \<not> isNaN (vx (viewPosition d)) \<and> \<not> isNaN (qx (viewQuaternion d))
                     then s1\<lparr>travels := travels s1 @ [(viewPosition d, viewQuaternion d)]\<rparr>
                     else s1)"
  define s3 where "s3 = (if temporal s2 then s2\<lparr>timeChanges := timeChanges s2 @ [startDate d]\<rparr>
                      else s2)"
  define tr where "tr = (if \<not> isNaN (vx (viewPosition d)) \<and> \<not> isNaN (qx (viewQuaternion d))
              then travels s @ [(viewPosition d, viewQuaternion d)] else travels s)"
  have f2: "travels s2 = tr" "docFullImg_src (html s2) = Some (imageSourceHD d)"
    "docFullImg_opacity (html s2) = Some 0" "docFull_display (html s2) = ''block''"
    by (simp_all add: s2_def s1_def tr_def)
  have f3: "travels s3 = tr" "docFullImg_src (html s3) = Some (imageSourceHD d)"
    "docFullImg_opacity (html s3) = Some 0" "docFull_display (html s3) = ''block''"
    "AllDocuments s3 = AllDocuments s" "scene s3 = scene s"
    using f2 by (simp_all add: s3_def s2_def s1_def)
  have thrown: "focusOnDoc s = (Some ReferenceError, s2)"
    if "temporal s \<and> \<not> global_temporal s"
    using that assms by (simp add: focusOnDoc_def Let_def s2_def s1_def)
  have eq: "focusOnDoc s =
       andThen (hideBillboards True s3)
          (\<lambda>s3. notifyChange False (s3\<lparr>isOrientingDoc := True, isFadingDoc := False\<rparr>))"
    if "\<not> (temporal s \<and> \<not> global_temporal s)"
    using that assms by (simp add: focusOnDoc_def s3_def s2_def s1_def Let_def)
  have A: "travels (snd (focusOnDoc s)) = tr
       \<and> docFullImg_src (html (snd (focusOnDoc s))) = Some (imageSourceHD d)
       \<and> docFullImg_opacity (html (snd (focusOnDoc s))) = Some 0
       \<and> docFull_display (html (snd (focusOnDoc s))) = ''block''"
  proof (cases "temporal s \<and> \<not> global_temporal s")
    case True
    show ?thesis unfolding thrown[OF True] using f2 by simp
  next
    case False
    obtain e s4 where h: "hideBillboards True s3 = (e, s4)"
      "travels s4 = travels s3"
      "docFullImg_opacity (html s4) = docFullImg_opacity (html s3)"
      "docFullImg_src (html s4) = docFullImg_src (html s3)"
      "docFull_display (html s4) = docFull_display (html s3)"
      using hideBillboards_frame[of True s3] by blast
    show ?thesis
      unfolding eq[OF False] using h f3
      by (cases e) (auto simp: andThen_simps notifyChange_def)
  qed
  have B: "fst (focusOnDoc s) = None
            \<and> isOrientingDoc (snd (focusOnDoc s)) \<and> \<not> isFadingDoc (snd (focusOnDoc s))
            \<and> set (scene (snd (focusOnDoc s))) = set (scene s) - billboards (AllDocuments s)
            \<and> (\<forall>x\<in>set (AllDocuments s). mesh_ids x \<inter> set (scene (snd (focusOnDoc s))) = {})"
    if b: "(temporal s \<longrightarrow> global_temporal s)
            \<and> (\<forall>x\<in>set (AllDocuments s). billboard_built x) \<and> distinct (scene s)"
  proof -
    have nt: "\<not> (temporal s \<and> \<not> global_temporal s)" using b by blast
    have built: "\<forall>x\<in>set (AllDocuments s3). billboard_built x" and dis: "distinct (scene s3)"
      using b f3 by simp_all
    obtain cs where cs: "hideBillboards True s3 =
             (None, s3\<lparr>html := (html s3)\<lparr>docBrowserToggleBillboard := ''Afficher Billboards''\<rparr>,
                      scene := cs, notified := notified s3 @ [True]\<rparr>)"
        "set cs = set (scene s3) - billboards (AllDocuments s3)"
      using hideBillboards_built[OF built dis] by blast
    have gone: "mesh_ids x \<inter> set cs = {}" if x: "x \<in> set (AllDocuments s)" for x
    proof (cases "useBillboard x")
      case True
      then show ?thesis using mesh_ids_in_billboards[OF x True] cs(2) f3 by auto
    next
      case False
      then show ?thesis using built_no_planes[of x] b x by simp
    qed
    show ?thesis
      unfolding eq[OF nt] cs(1) using cs(2) f3 gone
      by (simp add: andThen_simps notifyChange_def)
  qed
  show ?thesis using A B unfolding tr_def by blast
qed

text \<open>
  Claim C8.  With a current document, \<open>focusOnDoc\<close> passes the document's pose to
  \<open>initiateTravel\<close> exactly when the \<open>x\<close> of its view position and the \<open>x\<close> of its view
  quaternion are both not NaN, and shows the full image at opacity 0.  But it does not
  always go on to the orienting state: when the handler was given the temporal option
  and the page binds no global \<open>temporal\<close>, the call \<open>temporal.changeTime\<close> throws a
  ReferenceError.  The call ends there: the orienting flag and the fading flag are as
  they were, the billboards are where they were in the scene, and no update is
  requested of the view.
\<close>

theorem focusOnDoc_throws_with_temporal:
  assumes "currentDoc s = Some d" and "temporal s" and "\<not> global_temporal s"
  shows "fst (focusOnDoc s) = Some ReferenceError
       \<and> travels (snd (focusOnDoc s))
           = (if \<not> isNaN (vx (viewPosition d)) \<and> \<not> isNaN (qx (viewQuaternion d))
              then travels s @ [(viewPosition d, viewQuaternion d)] else travels s)
       \<and> docFullImg_src (html (snd (focusOnDoc s))) = Some (imageSourceHD d)
       \<and> docFullImg_opacity (html (snd (focusOnDoc s))) = Some 0
       \<and> docFull_display (html (snd (focusOnDoc s))) = ''block''
       \<and> isOrientingDoc (snd (focusOnDoc s)) = isOrientingDoc s
       \<and> isFadingDoc (snd (focusOnDoc s)) = isFadingDoc s
       \<and> scene (snd (focusOnDoc s)) = scene s
       \<and> timeChanges (snd (focusOnDoc s)) = timeChanges s
       \<and> notified (snd (focusOnDoc s)) = notified s"
  using assms by (simp add: focusOnDoc_def Let_def)

theorem focusOnDoc_throws_with_temporal_witness:
  "currentDoc temporal_shown = Some doc_a \<and> temporal temporal_shown
   \<and> \<not> global_temporal temporal_shown
   \<and> \<not> isOrientingDoc temporal_shown \<and> scene temporal_shown = [0, 1]
   \<and> mesh_ids doc_a = {0, 1}
   \<and> fst (focusOnDoc temporal_shown) = Some ReferenceError
   \<and> travels (snd (focusOnDoc temporal_shown)) = [(viewPosition doc_a, viewQuaternion doc_a)]
   \<and> docFullImg_opacity (html (snd (focusOnDoc temporal_shown))) = Some 0
   \<and> \<not> isOrientingDoc (snd (focusOnDoc temporal_shown))
   \<and> scene (snd (focusOnDoc temporal_shown)) = [0, 1]"
  using focusOnDoc_throws_with_temporal [of temporal_shown doc_a]
  by (simp add: temporal_shown_eq loaded_eq mesh_ids_def doc_a_def insert_commute)

section \<open>Loading the catalogue\<close>

lemma forEach_show_frame: "\<exists>e cs. forEach show_billboard xs s = (e, s\<lparr>scene := cs\<rparr>)"
proof (induction xs arbitrary: s)
  case Nil
  have "forEach show_billboard [] s = (None, s\<lparr>scene := scene s\<rparr>)" by simp
  then show ?case by blast
next
  case (Cons x xs)
  show ?case
  proof (cases "useBillboard x")
    case False
    then have "forEach show_billboard (x # xs) s = forEach show_billboard xs s"
      by (simp add: show_billboard_def andThen_simps)
    then show ?thesis using Cons.IH by simp
  next
    case True
    define s1 where "s1 = s\<lparr>scene := add_mesh (billboardGeometryFrame x)
                         (add_mesh (billboardGeometry x) (scene s))\<rparr>"
    show ?thesis
    proof (cases "null_mesh x")
      case None
      then have "forEach show_billboard (x # xs) s = forEach show_billboard xs s1"
        using True by (simp add: show_billboard_def andThen_simps s1_def)
      moreover obtain e cs where "forEach show_billboard xs s1 = (e, s1\<lparr>scene := cs\<rparr>)"
        using Cons.IH by blast
      ultimately have "forEach show_billboard (x # xs) s = (e, s\<lparr>scene := cs\<rparr>)"
        by (simp add: s1_def)
      then show ?thesis by blast
    next
      case (Some err)
      then have "forEach show_billboard (x # xs) s = (Some err, s1)"
        using True by (simp add: show_billboard_def andThen_simps s1_def)
      then show ?thesis unfolding s1_def by blast
    qed
  qed
qed

lemma showBillboards_docs: "AllDocuments (snd (showBillboards b s)) = AllDocuments s"
proof (cases "\<not> b \<and> \<not> billboardsAreActive s")
  case True
  then show ?thesis by (simp add: showBillboards_def)
next
  case False
  define s0 where
    "s0 = s\<lparr>html := (html s)\<lparr>docBrowserToggleBillboard := ''Masquer Billboards''\<rparr>\<rparr>"
  obtain e cs where fe: "forEach show_billboard (AllDocuments s) s0 = (e, s0\<lparr>scene := cs\<rparr>)"
    using forEach_show_frame by blast
  show ?thesis using False fe
    by (cases e) (simp_all add: showBillboards_def andThen_simps notifyChange_def s0_def)
qed

lemma hideBillboards_docs: "AllDocuments (snd (hideBillboards b s)) = AllDocuments s"
  using hideBillboards_frame[of b s] by auto

lemma new_document_row:
  assumes "7 \<le> length row"
  shows "new_document pf True row k =
     Inr (Document (row ! 4) (parseFloat pf (field row 0)) (parseFloat pf (field row 1))
            (''Vilo3D/Docs/'' @ string_of (field row 2))
            (''Vilo3D/Docs/'' @ string_of (field row 3))
            \<lparr>vx = parseFloat pf (field row 14), vy = parseFloat pf (field row 15),
              vz = parseFloat pf (field row 16)\<rparr>
            \<lparr>vx = parseFloat pf (field row 7), vy = parseFloat pf (field row 8),
              vz = parseFloat pf (field row 9)\<rparr>
            \<lparr>qx = parseFloat pf (field row 10), qy = parseFloat pf (field row 11),
              qz = parseFloat pf (field row 12), qw = parseFloat pf (field row 13)\<rparr>
            (Moment (row ! 5)) (row ! 6) k)"
proof -
  have "field row 4 = Some (row ! 4)" "field row 5 = Some (row ! 5)"
    "field row 6 = Some (row ! 6)"
    using assms by (simp_all add: field_def)
  then show ?thesis by (simp add: new_document_def Let_def)
qed

lemma Document_fields:
  "index (fst (Document t i did srcHD srcBD bpos vpos vquat date meta k)) = i"
  "doc_ID (fst (Document t i did srcHD srcBD bpos vpos vquat date meta k)) = did"
  "imageSourceHD (fst (Document t i did srcHD srcBD bpos vpos vquat date meta k)) = srcHD"
  "imageSourceBD (fst (Document t i did srcHD srcBD bpos vpos vquat date meta k)) = srcBD"
  "title (fst (Document t i did srcHD srcBD bpos vpos vquat date meta k)) = t"
  "startDate (fst (Document t i did srcHD srcBD bpos vpos vquat date meta k)) = date"
  "metaData (fst (Document t i did srcHD srcBD bpos vpos vquat date meta k)) = meta"
  "viewPosition (fst (Document t i did srcHD srcBD bpos vpos vquat date meta k)) = vpos"
  "viewQuaternion (fst (Document t i did srcHD srcBD bpos vpos vquat date meta k)) = vquat"
  "billboardPosition (fst (Document t i did srcHD srcBD bpos vpos vquat date meta k)) = bpos"
  by (simp_all add: Document_def createBillboard_def Let_def)


lemma initialize_AllDocuments:
  "AllDocuments (snd (initialize pf rows s)) = AllDocuments (snd (initialize_loop pf rows 0 s))"
proof (cases "initialize_loop pf rows 0 s")
  case (Pair e0 s1)
  show ?thesis
  proof (cases e0)
    case (Some err)
    then show ?thesis using Pair by (simp add: initialize_def andThen_simps)
  next
    case None
    define s2 where "s2 = s1\<lparr>currentDoc := array_get (AllDocuments s1) (Fin 0)\<rparr>"
    have init: "initialize pf rows s =
      andThen (updateBrowser s2)
        (\<lambda>s2. andThen (if billboardsAreActive s2 then showBillboards True s2
                         else hideBillboards True s2)
             (\<lambda>s3. (None, s3\<lparr>initEvents := Suc (initEvents s3)\<rparr>)))"
      using Pair None by (simp only: initialize_def andThen_simps s2_def)
    have "AllDocuments (snd (initialize pf rows s)) = AllDocuments s1"
    proof (cases "updateBrowser s2")
      case (Pair e s3)
      have "AllDocuments s2 = AllDocuments s1" by (simp add: s2_def)
      then have a3: "AllDocuments s3 = AllDocuments s1"
        using Pair by (auto simp: updateBrowser_def split: option.splits)
      show ?thesis
      proof (cases e)
        case (Some err)
        then show ?thesis using Pair a3 unfolding init by (simp add: andThen_simps)
      next
        case None
        obtain e4 s4 where r: "(if billboardsAreActive s3 then showBillboards True s3
                           else hideBillboards True s3) = (e4, s4)"
          by (metis surj_pair)
        then have "AllDocuments s4 = AllDocuments s3"
          using showBillboards_docs[of True s3] hideBillboards_docs[of True s3]
          by (auto split: if_splits)
        then show ?thesis using None Pair a3 r unfolding init
          by (cases e4) (simp_all add: andThen_simps)
      qed
    qed
    then show ?thesis using \<open>initialize_loop pf rows 0 s = (e0, s1)\<close> by simp
  qed
qed

text \<open>
  The loop of \<open>initialize\<close> appends one document for every row up to \<open>j\<close>, when these rows
  have the cells that are read with \<open>toString\<close>.
\<close>

lemma initialize_loop_rows:
  assumes "global_moment s" and "j \<le> length rows"
    and "\<forall>m<j. 7 \<le> length (rows ! m)" and "j - i = n" and "i \<le> j"
  shows "\<exists>ds k. initialize_loop pf rows i s
                  = initialize_loop pf rows j
                      (s\<lparr>AllDocuments := AllDocuments s @ ds, object3DId := k\<rparr>)
           \<and> length ds = n
           \<and> (\<forall>m<n. \<exists>k1 k2. new_document pf True (rows ! (i + m)) k1 = Inr (ds ! m, k2))"
  using assms(1,4,5)
proof (induction n arbitrary: i s)
  case 0
  then have "i = j" by simp
  then have "initialize_loop pf rows i s
      = initialize_loop pf rows j (s\<lparr>AllDocuments := AllDocuments s @ [], object3DId := object3DId s\<rparr>)"
    by simp
  then show ?case by (intro exI[of _ "[]"] exI[of _ "object3DId s"]) simp
next
  case (Suc n)
  then have lt: "i < j" by simp
  then have lr: "i < length rows" using assms(2) by simp
  have "7 \<le> length (rows ! i)" using assms(3) lt by simp
  then obtain doc k where nd: "new_document pf True (rows ! i) (object3DId s) = Inr (doc, k)"
    using new_document_row[of "rows ! i" pf "object3DId s"] by (metis surj_pair)
  define s1 where "s1 = s\<lparr>AllDocuments := AllDocuments s @ [doc], object3DId := k\<rparr>"
  have step: "initialize_loop pf rows i s = initialize_loop pf rows (Suc i) s1"
    using lr nd Suc.prems(1) by (subst initialize_loop.simps) (simp add: s1_def)
  have g1: "global_moment s1" using Suc.prems(1) by (simp add: s1_def)
  obtain ds k' where ih:
      "initialize_loop pf rows (Suc i) s1
         = initialize_loop pf rows j (s1\<lparr>AllDocuments := AllDocuments s1 @ ds, object3DId := k'\<rparr>)"
      "length ds = n"
      "\<forall>m<n. \<exists>k1 k2. new_document pf True (rows ! (Suc i + m)) k1 = Inr (ds ! m, k2)"
  proof -
    have "j - Suc i = n" "Suc i \<le> j" using Suc.prems by simp_all
    from Suc.IH[OF g1 this] show ?thesis using that by blast
  qed
  have 1: "initialize_loop pf rows i s
             = initialize_loop pf rows j
                 (s\<lparr>AllDocuments := AllDocuments s @ (doc # ds), object3DId := k'\<rparr>)"
    unfolding step ih(1) by (simp add: s1_def)
  have 2: "\<exists>k1 k2. new_document pf True (rows ! (i + m)) k1 = Inr ((doc # ds) ! m, k2)"
    if "m < Suc n" for m
  proof (cases m)
    case 0
    then show ?thesis using nd by auto
  next
    case (Suc m')
    then show ?thesis using ih(3) that by auto
  qed
  show ?case
    using 1 2 ih(2) by (intro exI[of _ "doc # ds"] exI[of _ k']) simp
qed

lemma new_document_short:
  assumes "length row < 7"
  shows "new_document pf True row k = Inl TypeError"
  using assms by (simp add: new_document_def field_def Let_def)

lemma initialize_docs:
  assumes "global_moment s" and "j \<le> length rows" and "\<forall>m<j. 7 \<le> length (rows ! m)"
    and "j < length rows \<longrightarrow> length (rows ! j) < 7"
  shows "\<exists>ds. AllDocuments (snd (initialize pf rows s)) = AllDocuments s @ ds
           \<and> length ds = j
           \<and> (\<forall>m<j. \<exists>k1 k2. new_document pf True (rows ! m) k1 = Inr (ds ! m, k2))
           \<and> (j < length rows \<longrightarrow> fst (initialize pf rows s) = Some TypeError)"
proof -
  obtain ds k where l: "initialize_loop pf rows 0 s
                  = initialize_loop pf rows j
                      (s\<lparr>AllDocuments := AllDocuments s @ ds, object3DId := k\<rparr>)"
      "length ds = j"
      "\<forall>m<j. \<exists>k1 k2. new_document pf True (rows ! (0 + m)) k1 = Inr (ds ! m, k2)"
    using initialize_loop_rows[OF assms(1,2,3), of 0 j pf] by auto
  define s1 where "s1 = s\<lparr>AllDocuments := AllDocuments s @ ds, object3DId := k\<rparr>"
  have g1: "global_moment s1" using assms(1) by (simp add: s1_def)
  have stop: "initialize_loop pf rows j s1
                = (if j < length rows then (Some TypeError, s1) else (None, s1))"
  proof (cases "j < length rows")
    case True
    then have "new_document pf True (rows ! j) (object3DId s1) = Inl TypeError"
      using assms(4) new_document_short by simp
    then show ?thesis using True g1 by (subst initialize_loop.simps) simp
  next
    case False
    then show ?thesis by (subst initialize_loop.simps) simp
  qed
  have a: "AllDocuments (snd (initialize pf rows s)) = AllDocuments s1"
    unfolding initialize_AllDocuments l(1) s1_def[symmetric] stop by simp
  have t: "fst (initialize pf rows s) = Some TypeError" if "j < length rows"
    using that by (simp add: initialize_def l(1) s1_def[symmetric] stop andThen_simps)
  show ?thesis using a t l(2,3) by (auto simp: s1_def)
qed

lemma Inr_fst: "r = Inr (x, y) \<Longrightarrow> r = Inr p \<Longrightarrow> x = fst p"
  by auto

text \<open>
  Every document that \<open>initialize\<close> loads is as the constructor builds it, whatever the
  rows are, and the planes of the documents are numbered apart.
\<close>

lemma new_document_planes:
  assumes "new_document pf bm row k = Inr (d, k')"
  shows "billboard_built d" and "billboard_data_built d"
    and "map mesh_id (own_meshes d) = (if useBillboard d then [k, Suc k] else [])"
    and "k \<le> k'" and "useBillboard d \<longrightarrow> Suc k < k'"
  using assms
  by (auto simp: new_document_def Let_def Document_def createBillboard_def billboard_built_def
      billboard_data_built_def own_meshes_def split: option.splits if_splits)

lemma planes_numbered_snoc:
  assumes "planes_numbered k docs"
    and "map mesh_id (own_meshes d) = (if useBillboard d then [k, Suc k] else [])"
    and "k \<le> k'" and "useBillboard d \<longrightarrow> Suc k < k'"
  shows "planes_numbered k' (docs @ [d])"
proof -
  have low: "\<forall>i\<in>set (concat (map (\<lambda>d. map mesh_id (own_meshes d)) docs)). i < k"
    using assms(1) by (auto simp: planes_numbered_def)
  have own: "\<forall>m\<in>set (own_meshes d). mesh_id m < k'"
  proof
    fix m assume "m \<in> set (own_meshes d)"
    then have "mesh_id m \<in> set (map mesh_id (own_meshes d))" by simp
    then show "mesh_id m < k'" unfolding assms(2) using assms(4) by (auto split: if_splits)
  qed
  have "distinct (map mesh_id (own_meshes d))" unfolding assms(2) by simp
  moreover have "set (concat (map (\<lambda>d. map mesh_id (own_meshes d)) docs))
                   \<inter> set (map mesh_id (own_meshes d)) = {}"
    unfolding assms(2) using low by (fastforce split: if_splits)
  ultimately have "distinct (concat (map (\<lambda>d. map mesh_id (own_meshes d)) (docs @ [d])))"
    using assms(1) by (simp add: planes_numbered_def)
  moreover have "\<forall>x\<in>set docs. \<forall>m\<in>set (own_meshes x). mesh_id m < k'"
    using assms(1,3) by (fastforce simp: planes_numbered_def)
  ultimately show ?thesis using own by (simp add: planes_numbered_def)
qed

lemma initialize_loop_planes:
  assumes "planes_numbered (object3DId s) (AllDocuments s)"
    and "\<forall>d\<in>set (AllDocuments s). billboard_built d \<and> billboard_data_built d"
  shows "planes_numbered (object3DId (snd (initialize_loop pf rows i s)))
           (AllDocuments (snd (initialize_loop pf rows i s)))
       \<and> (\<forall>d\<in>set (AllDocuments (snd (initialize_loop pf rows i s))).
            billboard_built d \<and> billboard_data_built d)"
  using assms
proof (induction pf rows i s rule: initialize_loop.induct)
  case (1 pf rows i s)
  show ?case
  proof (cases "i < length rows")
    case False
    then show ?thesis using "1.prems" by (subst (1 2 3) initialize_loop.simps) simp
  next
    case True
    show ?thesis
    proof (cases "new_document pf (global_moment s) (rows ! i) (object3DId s)")
      case (Inl e)
      then show ?thesis using True "1.prems" by (subst (1 2 3) initialize_loop.simps) simp
    next
      case (Inr r)
      obtain doc k where r: "r = (doc, k)" by (cases r)
      define s1 where "s1 = s\<lparr>AllDocuments := AllDocuments s @ [doc], object3DId := k\<rparr>"
      have nd: "new_document pf (global_moment s) (rows ! i) (object3DId s) = Inr (doc, k)"
        using Inr r by simp
      have step: "initialize_loop pf rows i s = initialize_loop pf rows (Suc i) s1"
        using True nd by (subst initialize_loop.simps) (simp add: s1_def)
      have p1: "planes_numbered (object3DId s1) (AllDocuments s1)"
        using planes_numbered_snoc[OF "1.prems"(1) new_document_planes(3,4,5)[OF nd]]
        by (simp add: s1_def)
      have b1: "\<forall>d\<in>set (AllDocuments s1). billboard_built d \<and> billboard_data_built d"
        using "1.prems"(2) new_document_planes(1,2)[OF nd] by (simp add: s1_def)
      show ?thesis
        unfolding step using "1.IH"[OF True nd[unfolded r[symmetric]] r[symmetric] , folded s1_def] p1 b1
        by simp
    qed
  qed
qed

lemma initialize_planes:
  assumes "AllDocuments s = []"
  shows "planes_numbered (object3DId (snd (initialize_loop pf rows 0 s)))
           (AllDocuments (snd (initialize pf rows s)))"
    and "\<forall>d\<in>set (AllDocuments (snd (initialize pf rows s))).
            billboard_built d \<and> billboard_data_built d"
  unfolding initialize_AllDocuments
  using initialize_loop_planes[of s pf rows 0] assms
  by (simp_all add: planes_numbered_def)

lemma fresh_handler:
  "AllDocuments (DocumentsHandler sample_options sample_page) = []"
  "global_moment (DocumentsHandler sample_options sample_page)"
  by (simp_all add: DocumentsHandler_def Let_def sample_page_def)

text \<open>
  Claim C4, as stated, fails for a row that lacks a cell read with \<open>toString\<close>.  With a
  third row of one empty cell after the two rows of the catalogue, as a data file that
  ends in a line break gives, \<open>initialize\<close> throws a TypeError at that row: of the three
  rows only two have become documents, and no current document is set.
\<close>

theorem initialize_stops_at_short_row:
  "AllDocuments (DocumentsHandler sample_options sample_page) = []
   \<and> length (catalogue @ [[[]]]) = 3
   \<and> fst (initialize parse_cell (catalogue @ [[[]]])
            (DocumentsHandler sample_options sample_page)) = Some TypeError
   \<and> AllDocuments (snd (initialize parse_cell (catalogue @ [[[]]])
                          (DocumentsHandler sample_options sample_page))) = [doc_a, doc_b]
   \<and> length (AllDocuments (snd (initialize parse_cell (catalogue @ [[[]]])
                                  (DocumentsHandler sample_options sample_page))))
       \<noteq> length (catalogue @ [[[]]])
   \<and> currentDoc (snd (initialize parse_cell (catalogue @ [[[]]])
                        (DocumentsHandler sample_options sample_page))) = None"
proof -
  have r: "(catalogue @ [[[]]]) ! 0 = catalogue ! 0" "(catalogue @ [[[]]]) ! Suc 0 = catalogue ! Suc 0"
    "(catalogue @ [[[]]]) ! Suc (Suc 0) = [[]]"
    by (simp_all add: nth_append len_cat)
  have s: "new_document parse_cell True [[]] 2 = Inl TypeError"
    by (simp add: new_document_short)
  have "initialize parse_cell (catalogue @ [[[]]]) (DocumentsHandler sample_options sample_page)
      = (Some TypeError,
         (DocumentsHandler sample_options sample_page)\<lparr>AllDocuments := [doc_a, doc_b],
            object3DId := 2\<rparr>)"
    by (simp add: initialize_def initialize_loop.simps len_cat r s DocumentsHandler_def
        sample_options_def sample_page_def Let_def new_a new_b andThen_simps)
  then show ?thesis
    by (simp add: len_cat DocumentsHandler_def Let_def)
qed

text \<open>
  Claim C4, amended.  On a page that binds \<open>moment\<close> and a handler that holds no
  document yet, \<open>initialize\<close> turns every row before the first row of fewer than seven
  cells (every row, when all rows have seven cells or more) into one document, in row
  order.  With \<open>j\<close> the number of these rows, \<open>AllDocuments\<close> ends with \<open>j\<close> documents, and
  the document at position \<open>i\<close> carries the cells of row \<open>i\<close>: index, doc_ID, the two
  image paths, title, date, metadata, camera position, camera quaternion and billboard
  position.  When a row of fewer than seven cells is met, \<open>initialize\<close> throws a
  TypeError there and the rows from it on are not loaded.
\<close>

theorem initialize_loads_every_row:
  assumes "AllDocuments s = []" and "global_moment s"
    and "j \<le> length rows" and "\<forall>i<j. 7 \<le> length (rows ! i)"
    and "j < length rows \<longrightarrow> length (rows ! j) < 7"
  shows "length (AllDocuments (snd (initialize pf rows s))) = j
       \<and> (j < length rows \<longrightarrow> fst (initialize pf rows s) = Some TypeError)
       \<and> (\<forall>i<j.
            index (AllDocuments (snd (initialize pf rows s)) ! i)
              = parseFloat pf (field (rows ! i) 0)
          \<and> doc_ID (AllDocuments (snd (initialize pf rows s)) ! i)
              = parseFloat pf (field (rows ! i) 1)
          \<and> imageSourceHD (AllDocuments (snd (initialize pf rows s)) ! i)
              = ''Vilo3D/Docs/'' @ string_of (field (rows ! i) 2)
          \<and> imageSourceBD (AllDocuments (snd (initialize pf rows s)) ! i)
              = ''Vilo3D/Docs/'' @ string_of (field (rows ! i) 3)
          \<and> title (AllDocuments (snd (initialize pf rows s)) ! i) = rows ! i ! 4
          \<and> startDate (AllDocuments (snd (initialize pf rows s)) ! i) = Moment (rows ! i ! 5)
          \<and> metaData (AllDocuments (snd (initialize pf rows s)) ! i) = rows ! i ! 6
          \<and> viewPosition (AllDocuments (snd (initialize pf rows s)) ! i)
              = \<lparr>vx = parseFloat pf (field (rows ! i) 7), vy = parseFloat pf (field (rows ! i) 8),
                 vz = parseFloat pf (field (rows ! i) 9)\<rparr>
          \<and> viewQuaternion (AllDocuments (snd (initialize pf rows s)) ! i)
              = \<lparr>qx = parseFloat pf (field (rows ! i) 10), qy = parseFloat pf (field (rows ! i) 11),
                 qz = parseFloat pf (field (rows ! i) 12), qw = parseFloat pf (field (rows ! i) 13)\<rparr>
          \<and> billboardPosition (AllDocuments (snd (initialize pf rows s)) ! i)
              = \<lparr>vx = parseFloat pf (field (rows ! i) 14), vy = parseFloat pf (field (rows ! i) 15),
                 vz = parseFloat pf (field (rows ! i) 16)\<rparr>)"
proof -
  obtain ds where ds: "AllDocuments (snd (initialize pf rows s)) = AllDocuments s @ ds"
      "length ds = j"
      "\<forall>m<j. \<exists>k1 k2. new_document pf True (rows ! m) k1 = Inr (ds ! m, k2)"
      "j < length rows \<longrightarrow> fst (initialize pf rows s) = Some TypeError"
    using initialize_docs[OF assms(2,3,4,5)] by blast
  have all: "AllDocuments (snd (initialize pf rows s)) = ds"
    using ds(1) assms(1) by simp
  have row: "index (ds ! i) = parseFloat pf (field (rows ! i) 0)
          \<and> doc_ID (ds ! i) = parseFloat pf (field (rows ! i) 1)
          \<and> imageSourceHD (ds ! i) = ''Vilo3D/Docs/'' @ string_of (field (rows ! i) 2)
          \<and> imageSourceBD (ds ! i) = ''Vilo3D/Docs/'' @ string_of (field (rows ! i) 3)
          \<and> title (ds ! i) = rows ! i ! 4
          \<and> startDate (ds ! i) = Moment (rows ! i ! 5)
          \<and> metaData (ds ! i) = rows ! i ! 6
          \<and> viewPosition (ds ! i)
              = \<lparr>vx = parseFloat pf (field (rows ! i) 7), vy = parseFloat pf (field (rows ! i) 8),
                 vz = parseFloat pf (field (rows ! i) 9)\<rparr>
          \<and> viewQuaternion (ds ! i)
              = \<lparr>qx = parseFloat pf (field (rows ! i) 10), qy = parseFloat pf (field (rows ! i) 11),
                 qz = parseFloat pf (field (rows ! i) 12), qw = parseFloat pf (field (rows ! i) 13)\<rparr>
          \<and> billboardPosition (ds ! i)
              = \<lparr>vx = parseFloat pf (field (rows ! i) 14), vy = parseFloat pf (field (rows ! i) 15),
                 vz = parseFloat pf (field (rows ! i) 16)\<rparr>"
    if i: "i < j" for i
  proof -
    obtain k1 k2 where nd: "new_document pf True (rows ! i) k1 = Inr (ds ! i, k2)"
      using ds(3) i by blast
    have "7 \<le> length (rows ! i)" using assms(4) i by simp
    from nd new_document_row[OF this, of pf k1]
    have "ds ! i = fst (Document (rows ! i ! 4) (parseFloat pf (field (rows ! i) 0))
            (parseFloat pf (field (rows ! i) 1))
            (''Vilo3D/Docs/'' @ string_of (field (rows ! i) 2))
            (''Vilo3D/Docs/'' @ string_of (field (rows ! i) 3))
            \<lparr>vx = parseFloat pf (field (rows ! i) 14), vy = parseFloat pf (field (rows ! i) 15),
              vz = parseFloat pf (field (rows ! i) 16)\<rparr>
            \<lparr>vx = parseFloat pf (field (rows ! i) 7), vy = parseFloat pf (field (rows ! i) 8),
              vz = parseFloat pf (field (rows ! i) 9)\<rparr>
            \<lparr>qx = parseFloat pf (field (rows ! i) 10), qy = parseFloat pf (field (rows ! i) 11),
              qz = parseFloat pf (field (rows ! i) 12), qw = parseFloat pf (field (rows ! i) 13)\<rparr>
            (Moment (rows ! i ! 5)) (rows ! i ! 6) k1)"
      by (rule Inr_fst)
    then show ?thesis by (simp only: Document_fields simp_thms)
  qed
  show ?thesis
    unfolding all using ds(2,4) row by blast
qed

theorem initialize_loads_every_row_witness:
  "AllDocuments (DocumentsHandler sample_options sample_page) = []
   \<and> global_moment (DocumentsHandler sample_options sample_page)
   \<and> length catalogue = 2 \<and> length (catalogue ! 0) = 17 \<and> length (catalogue ! 1) = 17
   \<and> length (AllDocuments loaded) = 2
   \<and> index (AllDocuments loaded ! 0) = Fin 0
   \<and> title (AllDocuments loaded ! 0) = ''Title A''
   \<and> billboardPosition (AllDocuments loaded ! 0) = \<lparr>vx = Fin 1, vy = Fin 2, vz = Fin 3\<rparr>
   \<and> index (AllDocuments loaded ! 1) = Fin 1
   \<and> imageSourceHD (AllDocuments loaded ! 1) = ''Vilo3D/Docs/b.jpg''
   \<and> startDate (AllDocuments loaded ! 1) = Moment ''1950-01-01''
   \<and> billboardPosition (AllDocuments loaded ! 1) = \<lparr>vx = NaN, vy = NaN, vz = NaN\<rparr>
   \<and> length (catalogue @ [[[]]]) = 3 \<and> length ((catalogue @ [[[]]]) ! 2) = 1
   \<and> length (AllDocuments (snd (initialize parse_cell (catalogue @ [[[]]])
                                  (DocumentsHandler sample_options sample_page)))) = 2
   \<and> fst (initialize parse_cell (catalogue @ [[[]]])
            (DocumentsHandler sample_options sample_page)) = Some TypeError"
proof -
  have c: "length catalogue = 2" "length (catalogue ! 0) = 17" "length (catalogue ! 1) = 17"
    "length (catalogue @ [[[]]]) = 3" "length ((catalogue @ [[[]]]) ! 2) = 1"
    by (simp_all add: catalogue_def)
  have r: "\<forall>i<2. 7 \<le> length (catalogue ! i)" "\<forall>i<2. 7 \<le> length ((catalogue @ [[[]]]) ! i)"
    by (simp_all add: catalogue_def less_Suc_eq numeral_2_eq_2)
  have j1: "(2::nat) \<le> length catalogue" "2 < length catalogue \<longrightarrow> length (catalogue ! 2) < 7"
    using c by simp_all
  have j2: "(2::nat) \<le> length (catalogue @ [[[]]])"
    "2 < length (catalogue @ [[[]]]) \<longrightarrow> length ((catalogue @ [[[]]]) ! 2) < 7"
    using c by simp_all
  note t = initialize_loads_every_row [OF fresh_handler j1(1) r(1) j1(2), of parse_cell,
      folded loaded_def]
  note u = initialize_loads_every_row [OF fresh_handler j2(1) r(2) j2(2), of parse_cell]
  have 0: "(0::nat) < 2" and 1: "(1::nat) < 2" by simp_all
  show ?thesis
    using fresh_handler c t[THEN conjunct1] t[THEN conjunct2, THEN conjunct2, rule_format, OF 0]
      t[THEN conjunct2, THEN conjunct2, rule_format, OF 1]
      u[THEN conjunct1] u[THEN conjunct2, THEN conjunct1]
    by (simp add: catalogue_def field_def parseFloat_def string_of_def parse_cell_def)
qed

section \<open>Picking a billboard\<close>

lemma click_mid:
  "dsub (dmul (ddiv (Fin 512) (Fin 1024)) (Fin 2)) (Fin 1) = Fin 0"
  "dadd (dmul (dneg (ddiv (Fin 256) (Fin 512))) (Fin 2)) (Fin 1) = Fin 0"
  "dsub (dmul (ddiv (Fin 0) (Fin 1024)) (Fin 2)) (Fin 1) = Fin (- 1)"
  "dadd (dmul (dneg (ddiv (Fin 0) (Fin 512))) (Fin 2)) (Fin 1) = Fin 1"
proof -
  have h: "to_double (1 / 2) = Fin (1 / 2)"
    by (rule to_double_exact[of _ 1 "- 1"]) simp_all
  have o: "to_double 1 = Fin 1"
    by (rule to_double_exact[of _ 1 0]) simp_all
  have m: "to_double (- 1) = Fin (- 1)"
    by (rule to_double_exact[of _ "- 1" 0]) simp_all
  have z: "to_double 0 = Fin 0" by (simp add: to_double_def)
  show "dsub (dmul (ddiv (Fin 512) (Fin 1024)) (Fin 2)) (Fin 1) = Fin 0"
    by (simp add: dsub_def h o z)
  show "dadd (dmul (dneg (ddiv (Fin 256) (Fin 512))) (Fin 2)) (Fin 1) = Fin 0"
    by (simp add: h m z)
  show "dsub (dmul (ddiv (Fin 0) (Fin 1024)) (Fin 2)) (Fin 1) = Fin (- 1)"
    by (simp add: dsub_def m z)
  show "dadd (dmul (dneg (ddiv (Fin 0) (Fin 512))) (Fin 2)) (Fin 1) = Fin 1"
    by (simp add: o z)
qed

lemma own_meshes_ids: "mesh_id ` set (own_meshes d) = mesh_ids d"
  by (auto simp: own_meshes_def mesh_ids_def split: option.splits)

lemma find_owner:
  assumes "distinct (concat (map (\<lambda>d. map mesh_id (own_meshes d)) docs))"
    and "d \<in> set docs" and "i \<in> mesh_id ` set (own_meshes d)"
  shows "find (\<lambda>x. i \<in> mesh_id ` set (own_meshes x)) docs = Some d"
  using assms
proof (induction docs)
  case Nil
  then show ?case by simp
next
  case (Cons x xs)
  show ?case
  proof (cases "i \<in> mesh_id ` set (own_meshes x)")
    case False
    then have "d \<in> set xs" using Cons.prems(2,3) by auto
    then show ?thesis using False Cons by simp
  next
    case True
    have "d = x"
    proof (rule ccontr)
      assume "d \<noteq> x"
      then have "d \<in> set xs" using Cons.prems(2) by simp
      then have "i \<in> set (concat (map (\<lambda>d. map mesh_id (own_meshes d)) xs))"
        using Cons.prems(3) by auto
      moreover have "i \<in> set (map mesh_id (own_meshes x))" using True by simp
      ultimately show False using Cons.prems(1) by auto
    qed
    then show ?thesis using True by simp
  qed
qed

lemma object_userData_planes:
  assumes "planes_numbered k (AllDocuments s)" and "d \<in> set (AllDocuments s)"
    and "billboard_built d" and "billboard_data_built d" and "useBillboard d"
  shows "\<exists>p f. billboardGeometry d = Some p \<and> billboardGeometryFrame d = Some f
           \<and> object_userData s (mesh_id p)
               = \<lparr>userData_type = Some ''billboard'', userData_doc = Some d\<rparr>
           \<and> userData_type (object_userData s (mesh_id f)) = None"
proof -
  obtain p f where pf: "billboardGeometry d = Some p" "billboardGeometryFrame d = Some f"
    using assms(3,5) by (auto simp: billboard_built_def)
  have own: "own_meshes d = [p, f]" using pf by (simp add: own_meshes_def)
  have ud: "userData p = Some \<lparr>bd_type = ''billboard'', bd_doc = This\<rparr>" "userData f = None"
    using assms(4) pf by (simp_all add: billboard_data_built_def)
  have dis: "distinct (concat (map (\<lambda>d. map mesh_id (own_meshes d)) (AllDocuments s)))"
    using assms(1) by (simp add: planes_numbered_def)
  have "distinct (map mesh_id (own_meshes d))"
    using dis assms(2) by (auto simp: distinct_concat_iff)
  then have ne: "mesh_id p \<noteq> mesh_id f" using own by simp
  have fp: "find (\<lambda>x. mesh_id p \<in> mesh_id ` set (own_meshes x)) (AllDocuments s) = Some d"
    using find_owner[OF dis assms(2)] own by simp
  have ff: "find (\<lambda>x. mesh_id f \<in> mesh_id ` set (own_meshes x)) (AllDocuments s) = Some d"
    using find_owner[OF dis assms(2)] own by simp
  have "object_userData s (mesh_id p)
               = \<lparr>userData_type = Some ''billboard'', userData_doc = Some d\<rparr>"
    by (simp add: object_userData_def fp own ud)
  moreover have "userData_type (object_userData s (mesh_id f)) = None"
    using ne by (simp add: object_userData_def ff own ud)
  ultimately show ?thesis using pf by simp
qed

lemma onMouseClick_loop_none:
  assumes "\<forall>i\<in>set hits. userData_type (object_userData s i) \<noteq> Some ''billboard''"
  shows "onMouseClick_loop hits s = (None, s)"
  using assms by (induction hits) simp_all

lemma onMouseClick_loop_first:
  assumes "\<forall>j\<in>set pre. userData_type (object_userData s j) \<noteq> Some ''billboard''"
    and "userData_type (object_userData s i) = Some ''billboard''"
  shows "onMouseClick_loop (pre @ i # post) s
           = focusOnDoc (s\<lparr>currentDoc := userData_doc (object_userData s i)\<rparr>)"
  using assms by (induction pre) simp_all

lemma shown_objects:
  "userData_type (object_userData shown 1) = None"
  "object_userData shown 0 = \<lparr>userData_type = Some ''billboard'', userData_doc = Some doc_a\<rparr>"
  by (simp_all add: object_userData_def own_meshes_def shown_eq(2) second_eq(2) loaded_eq
      doc_a_def doc_b_def)

text \<open>
  Claim C6.  \<open>onMouseClick\<close> brings the position of the click to the range from \<open>-1\<close> to
  1 and has the ray caster cast a ray from the camera through it at the children of the
  scene; let \<open>hits\<close> be what the ray meets, the nearest first.  When no object of \<open>hits\<close>
  has the \<open>userData.type\<close> \<open>billboard\<close>, nothing changes.  Otherwise the call is
  \<open>focusOnDoc\<close> on the document \<open>d\<close> of the first such object: \<open>d\<close> becomes the current
  document, its full image is shown at opacity 0, the travel to its pose is requested
  when the pose is valid, and (where \<open>focusOnDoc\<close> does not throw for the temporal
  option, the documents being as the constructor builds them and the scene holding no
  object twice) the handler is left orienting and not fading.  For the documents that
  \<open>initialize\<close> has loaded, the image plane of a document that uses a billboard is such
  an object, with that very document as its \<open>doc\<close>; its frame is not.
\<close>

theorem click_picks_first_billboard:
  assumes "intersectObjects
             \<lparr>v2x = dsub (dmul (ddiv (clientX event) (innerWidth s)) (Fin 2)) (Fin 1),
              v2y = dadd (dmul (dneg (ddiv (clientY event) (innerHeight s))) (Fin 2)) (Fin 1)\<rparr>
             (camera s) (scene s) = hits"
  shows "((\<forall>i\<in>set hits. userData_type (object_userData s i) \<noteq> Some ''billboard'') \<longrightarrow>
            onMouseClick intersectObjects event s = (None, s))
       \<and> (hits = pre @ i # post
            \<and> (\<forall>j\<in>set pre. userData_type (object_userData s j) \<noteq> Some ''billboard'')
            \<and> object_userData s i = \<lparr>userData_type = Some ''billboard'', userData_doc = Some d\<rparr>
          \<longrightarrow>
            onMouseClick intersectObjects event s = focusOnDoc (s\<lparr>currentDoc := Some d\<rparr>)
          \<and> currentDoc (snd (onMouseClick intersectObjects event s)) = Some d
          \<and> docFullImg_src (html (snd (onMouseClick intersectObjects event s)))
              = Some (imageSourceHD d)
          \<and> docFullImg_opacity (html (snd (onMouseClick intersectObjects event s))) = Some 0
          \<and> docFull_display (html (snd (onMouseClick intersectObjects event s))) = ''block''
          \<and> travels (snd (onMouseClick intersectObjects event s))
              = (if \<not> isNaN (vx (viewPosition d)) \<and> \<not> isNaN (qx (viewQuaternion d))
                 then travels s @ [(viewPosition d, viewQuaternion d)] else travels s)
          \<and> ((temporal s \<longrightarrow> global_temporal s)
                \<and> (\<forall>x\<in>set (AllDocuments s). billboard_built x) \<and> distinct (scene s) \<longrightarrow>
                fst (onMouseClick intersectObjects event s) = None
              \<and> isOrientingDoc (snd (onMouseClick intersectObjects event s))
              \<and> \<not> isFadingDoc (snd (onMouseClick intersectObjects event s))))
       \<and> (AllDocuments s0 = [] \<and> AllDocuments s = AllDocuments (snd (initialize pf rows s0))
            \<and> x \<in> set (AllDocuments s) \<and> useBillboard x \<longrightarrow>
            (\<exists>p f. billboardGeometry x = Some p \<and> billboardGeometryFrame x = Some f
               \<and> object_userData s (mesh_id p)
                   = \<lparr>userData_type = Some ''billboard'', userData_doc = Some x\<rparr>
               \<and> userData_type (object_userData s (mesh_id f)) = None))"
proof (intro conjI impI)
  have click: "onMouseClick intersectObjects event s = onMouseClick_loop hits s"
    using assms by (simp add: onMouseClick_def Let_def)
  {
    assume "\<forall>i\<in>set hits. userData_type (object_userData s i) \<noteq> Some ''billboard''"
    then show "onMouseClick intersectObjects event s = (None, s)"
      unfolding click by (rule onMouseClick_loop_none)
  }
  {
    assume h: "hits = pre @ i # post
            \<and> (\<forall>j\<in>set pre. userData_type (object_userData s j) \<noteq> Some ''billboard'')
            \<and> object_userData s i = \<lparr>userData_type = Some ''billboard'', userData_doc = Some d\<rparr>"
    define t where "t = s\<lparr>currentDoc := Some d\<rparr>"
    have eq: "onMouseClick intersectObjects event s = focusOnDoc t"
      unfolding click t_def using h onMouseClick_loop_first[of pre s i post] by simp
    have c: "currentDoc t = Some d" by (simp add: t_def)
    note e = focusOnDoc_effects[OF c]
    show "onMouseClick intersectObjects event s = focusOnDoc (s\<lparr>currentDoc := Some d\<rparr>)"
      using eq by (simp add: t_def)
    show "currentDoc (snd (onMouseClick intersectObjects event s)) = Some d"
      unfolding eq using c by (simp add: focusOnDoc_currentDoc)
    show "docFullImg_src (html (snd (onMouseClick intersectObjects event s)))
              = Some (imageSourceHD d)"
      unfolding eq using e by simp
    show "docFullImg_opacity (html (snd (onMouseClick intersectObjects event s))) = Some 0"
      unfolding eq using e by simp
    show "docFull_display (html (snd (onMouseClick intersectObjects event s))) = ''block''"
      unfolding eq using e by simp
    show "travels (snd (onMouseClick intersectObjects event s))
              = (if \<not> isNaN (vx (viewPosition d)) \<and> \<not> isNaN (qx (viewQuaternion d))
                 then travels s @ [(viewPosition d, viewQuaternion d)] else travels s)"
      unfolding eq using e by (simp add: t_def)
    {
      assume b: "(temporal s \<longrightarrow> global_temporal s)
                \<and> (\<forall>x\<in>set (AllDocuments s). billboard_built x) \<and> distinct (scene s)"
      then have "(temporal t \<longrightarrow> global_temporal t)
                \<and> (\<forall>x\<in>set (AllDocuments t). billboard_built x) \<and> distinct (scene t)"
        by (simp add: t_def)
      then have r: "fst (focusOnDoc t) = None \<and> isOrientingDoc (snd (focusOnDoc t))
           \<and> \<not> isFadingDoc (snd (focusOnDoc t))"
        using e by blast
      show "fst (onMouseClick intersectObjects event s) = None"
        "isOrientingDoc (snd (onMouseClick intersectObjects event s))"
        "\<not> isFadingDoc (snd (onMouseClick intersectObjects event s))"
        unfolding eq using r by simp_all
    }
  }
  {
    assume a: "AllDocuments s0 = [] \<and> AllDocuments s = AllDocuments (snd (initialize pf rows s0))
            \<and> x \<in> set (AllDocuments s) \<and> useBillboard x"
    then have e: "AllDocuments s0 = []"
      and eqd: "AllDocuments s = AllDocuments (snd (initialize pf rows s0))"
      and xin: "x \<in> set (AllDocuments s)" and ub: "useBillboard x" by blast+
    have pn: "planes_numbered (object3DId (snd (initialize_loop pf rows 0 s0))) (AllDocuments s)"
      unfolding eqd using initialize_planes(1)[OF e, of pf rows] .
    have bb: "billboard_built x" "billboard_data_built x"
      using initialize_planes(2)[OF e, of pf rows] xin unfolding eqd by blast+
    show "\<exists>p f. billboardGeometry x = Some p \<and> billboardGeometryFrame x = Some f
               \<and> object_userData s (mesh_id p)
                   = \<lparr>userData_type = Some ''billboard'', userData_doc = Some x\<rparr>
               \<and> userData_type (object_userData s (mesh_id f)) = None"
      using object_userData_planes[OF pn xin bb ub] .
  }
qed

theorem click_picks_first_billboard_witness:
  "ray_to_a
     \<lparr>v2x = dsub (dmul (ddiv (clientX \<lparr>clientX = Fin 512, clientY = Fin 256\<rparr>) (innerWidth shown))
                (Fin 2)) (Fin 1),
      v2y = dadd (dmul (dneg (ddiv (clientY \<lparr>clientX = Fin 512, clientY = Fin 256\<rparr>)
                               (innerHeight shown))) (Fin 2)) (Fin 1)\<rparr>
     (camera shown) (scene shown) = [1, 0]
   \<and> userData_type (object_userData shown 1) = None
   \<and> object_userData shown 0 = \<lparr>userData_type = Some ''billboard'', userData_doc = Some doc_a\<rparr>
   \<and> currentDoc shown = Some doc_b \<and> \<not> isOrientingDoc shown \<and> travels shown = []
   \<and> \<not> temporal shown \<and> distinct (scene shown)
   \<and> billboard_built doc_a \<and> billboard_built doc_b
   \<and> fst (onMouseClick ray_to_a \<lparr>clientX = Fin 512, clientY = Fin 256\<rparr> shown) = None
   \<and> currentDoc (snd (onMouseClick ray_to_a \<lparr>clientX = Fin 512, clientY = Fin 256\<rparr> shown))
       = Some doc_a
   \<and> docFullImg_src (html (snd (onMouseClick ray_to_a \<lparr>clientX = Fin 512, clientY = Fin 256\<rparr> shown)))
       = Some ''Vilo3D/Docs/a.jpg''
   \<and> docFullImg_opacity
        (html (snd (onMouseClick ray_to_a \<lparr>clientX = Fin 512, clientY = Fin 256\<rparr> shown)))
       = Some 0
   \<and> travels (snd (onMouseClick ray_to_a \<lparr>clientX = Fin 512, clientY = Fin 256\<rparr> shown))
       = [(viewPosition doc_a, viewQuaternion doc_a)]
   \<and> isOrientingDoc (snd (onMouseClick ray_to_a \<lparr>clientX = Fin 512, clientY = Fin 256\<rparr> shown))
   \<and> ray_to_a
        \<lparr>v2x = dsub (dmul (ddiv (clientX \<lparr>clientX = Fin 0, clientY = Fin 0\<rparr>) (innerWidth shown))
                   (Fin 2)) (Fin 1),
         v2y = dadd (dmul (dneg (ddiv (clientY \<lparr>clientX = Fin 0, clientY = Fin 0\<rparr>)
                                  (innerHeight shown))) (Fin 2)) (Fin 1)\<rparr>
        (camera shown) (scene shown) = []
   \<and> onMouseClick ray_to_a \<lparr>clientX = Fin 0, clientY = Fin 0\<rparr> shown = (None, shown)
   \<and> AllDocuments (DocumentsHandler sample_options sample_page) = []
   \<and> AllDocuments shown = AllDocuments loaded \<and> doc_a \<in> set (AllDocuments shown)
   \<and> useBillboard doc_a
   \<and> (\<exists>p f. billboardGeometry doc_a = Some p \<and> billboardGeometryFrame doc_a = Some f
         \<and> object_userData shown (mesh_id p)
             = \<lparr>userData_type = Some ''billboard'', userData_doc = Some doc_a\<rparr>
         \<and> userData_type (object_userData shown (mesh_id f)) = None)"
proof -
  have mid: "ray_to_a
     \<lparr>v2x = dsub (dmul (ddiv (clientX \<lparr>clientX = Fin 512, clientY = Fin 256\<rparr>) (innerWidth shown))
                (Fin 2)) (Fin 1),
      v2y = dadd (dmul (dneg (ddiv (clientY \<lparr>clientX = Fin 512, clientY = Fin 256\<rparr>)
                               (innerHeight shown))) (Fin 2)) (Fin 1)\<rparr>
     (camera shown) (scene shown) = [1, 0]"
    using click_mid(1,2) by (simp add: ray_to_a_def shown_eq(2) second_eq(2) loaded_eq)
  have corner: "ray_to_a
        \<lparr>v2x = dsub (dmul (ddiv (clientX \<lparr>clientX = Fin 0, clientY = Fin 0\<rparr>) (innerWidth shown))
                   (Fin 2)) (Fin 1),
         v2y = dadd (dmul (dneg (ddiv (clientY \<lparr>clientX = Fin 0, clientY = Fin 0\<rparr>)
                                  (innerHeight shown))) (Fin 2)) (Fin 1)\<rparr>
        (camera shown) (scene shown) = []"
    using click_mid(3,4) by (simp add: ray_to_a_def shown_eq(2) second_eq(2) loaded_eq)
  have st: "currentDoc shown = Some doc_b" "\<not> isOrientingDoc shown" "travels shown = []"
    "\<not> temporal shown" "distinct (scene shown)" "AllDocuments shown = [doc_a, doc_b]"
    by (simp_all add: shown_eq(2) second_eq(2) loaded_eq)
  have docs: "AllDocuments (DocumentsHandler sample_options sample_page) = []"
    "AllDocuments loaded = [doc_a, doc_b]"
    "billboard_built doc_a" "billboard_built doc_b" "useBillboard doc_a"
    "\<not> isNaN (vx (viewPosition doc_a))" "\<not> isNaN (qx (viewQuaternion doc_a))"
    "imageSourceHD doc_a = ''Vilo3D/Docs/a.jpg''"
    by (simp_all add: DocumentsHandler_def Let_def loaded_eq billboard_built_def doc_a_def
        doc_b_def)
  note t1 = click_picks_first_billboard
      [where intersectObjects = ray_to_a and event = "\<lparr>clientX = Fin 512, clientY = Fin 256\<rparr>"
         and s = shown and hits = "[1, 0]" and pre = "[1]" and i = 0 and post = "[]"
         and d = doc_a and ?s0.0 = "DocumentsHandler sample_options sample_page"
         and pf = parse_cell and rows = catalogue and x = doc_a, OF mid, folded loaded_def]
  note t2 = click_picks_first_billboard
      [where intersectObjects = ray_to_a and event = "\<lparr>clientX = Fin 0, clientY = Fin 0\<rparr>"
         and s = shown and hits = "[]" and pre = "[]" and i = 0 and post = "[]"
         and d = doc_a and ?s0.0 = "DocumentsHandler sample_options sample_page"
         and pf = parse_cell and rows = catalogue and x = doc_a, OF corner, folded loaded_def]
  have h: "[1, 0] = [1] @ 0 # []
      \<and> (\<forall>j\<in>set [1]. userData_type (object_userData shown j) \<noteq> Some ''billboard'')
      \<and> object_userData shown 0
          = \<lparr>userData_type = Some ''billboard'', userData_doc = Some doc_a\<rparr>"
    using shown_objects by simp
  note picked = t1[THEN conjunct2, THEN conjunct1, THEN mp, OF h, THEN conjunct2]
  note owner = t1[THEN conjunct2, THEN conjunct2]
  note missed = t2[THEN conjunct1]
  show ?thesis
    using picked owner missed mid corner st docs shown_objects by simp
qed

end
